theory Spec2Isabelle
  imports Main
begin

section \<open>Python text\<close>

text \<open>
  A Python \<open>str\<close> is a sequence of Unicode code points, so it is modelled as a list of
  natural numbers.  \<open>u\<close> turns an ASCII literal of the script into such a list.
\<close>

type_synonym pystr = "nat list"

definition u :: "string \<Rightarrow> pystr" where
  "u s = map of_char s"

definition slash :: nat where "slash = 47"
definition dot :: nat where "dot = 46"
definition newline :: nat where "newline = 10"

text \<open>U+2713 (check mark) and U+2717 (ballot x), the two marks the script prints.\<close>

definition tick :: nat where "tick = 10003"
definition cross :: nat where "cross = 10007"

text \<open>\<open>s.rfind(c)\<close>: the highest index of \<open>c\<close> in \<open>s\<close>, or \<open>-1\<close>.\<close>

definition rfind :: "nat \<Rightarrow> pystr \<Rightarrow> int" where
  "rfind c s =
     (if c \<in> set s then int (length s) - 1 - int (length (takeWhile (\<lambda>x. x \<noteq> c) (rev s)))
      else - 1)"

text \<open>\<open>s.split(sep)\<close> for a one-character separator.\<close>

fun split_sep :: "nat \<Rightarrow> pystr \<Rightarrow> pystr list" where
  "split_sep c [] = [[]]"
| "split_sep c (x # xs) =
     (if x = c then [] # split_sep c xs
      else (case split_sep c xs of
              [] \<Rightarrow> [[x]]
            | y # ys \<Rightarrow> (x # y) # ys))"

text \<open>\<open>sep.join(xs)\<close>.\<close>

fun join :: "pystr \<Rightarrow> pystr list \<Rightarrow> pystr" where
  "join sep [] = []"
| "join sep [x] = x"
| "join sep (x # y # ys) = x @ sep @ join sep (y # ys)"

text \<open>\<open>str(n)\<close> for an integer: decimal digits, with a minus sign when negative.\<close>

definition digit :: "nat \<Rightarrow> nat" where
  "digit d = 48 + d"

function str_nat :: "nat \<Rightarrow> pystr" where
  "str_nat n = (if n < 10 then [digit n] else str_nat (n div 10) @ [digit (n mod 10)])"
  by pat_completeness auto
termination
  by (relation "measure id") auto

declare str_nat.simps [simp del]

definition str_int :: "int \<Rightarrow> pystr" where
  "str_int i = (if i < 0 then 45 # str_nat (nat (- i)) else str_nat (nat i))"

section \<open>pathlib: pure paths\<close>

text \<open>
  A \<open>pathlib.PurePosixPath\<close> is its root (empty, one slash, or exactly two slashes) and
  its components.  Parsing drops empty components and single dots; \<open>..\<close> is kept.
\<close>

record path =
  root :: pystr
  parts :: "pystr list"

definition splitroot :: "pystr \<Rightarrow> pystr \<times> pystr" where
  "splitroot p =
     (if take 1 p \<noteq> [slash] then ([], p)
      else if take 1 (drop 1 p) \<noteq> [slash] \<or> take 1 (drop 2 p) = [slash]
           then ([slash], drop 1 p)
      else (take 2 p, drop 2 p))"

definition Path :: "pystr \<Rightarrow> path" where
  "Path s =
     (if s = [] then \<lparr>root = [], parts = []\<rparr>
      else (case splitroot s of
              (r, rel) \<Rightarrow>
                \<lparr>root = r, parts = filter (\<lambda>x. x \<noteq> [] \<and> x \<noteq> [dot]) (split_sep slash rel)\<rparr>))"

text \<open>\<open>str(p)\<close>: the path without components and without root prints as a dot.\<close>

definition str_path :: "path \<Rightarrow> pystr" where
  "str_path p =
     (let s = root p @ join [slash] (parts p) in if s = [] then [dot] else s)"

text \<open>\<open>p.name\<close>, \<open>p.suffix\<close>, \<open>p.stem\<close> (pathlib of Python 3.4 to 3.13, where a name that
  ends in a dot has no suffix).\<close>

definition name :: "path \<Rightarrow> pystr" where
  "name p = (if parts p = [] then [] else last (parts p))"

definition suffix :: "path \<Rightarrow> pystr" where
  "suffix p =
     (let n = name p; i = rfind dot n
      in if 0 < i \<and> i < int (length n) - 1 then drop (nat i) n else [])"

definition stem :: "path \<Rightarrow> pystr" where
  "stem p =
     (let n = name p; i = rfind dot n
      in if 0 < i \<and> i < int (length n) - 1 then take (nat i) n else n)"

text \<open>\<open>p.parent\<close>: a path without components is its own parent.\<close>

definition parent :: "path \<Rightarrow> path" where
  "parent p = p\<lparr>parts := butlast (parts p)\<rparr>"

text \<open>\<open>p / s\<close>: an absolute right operand replaces the left one.\<close>

definition truediv :: "path \<Rightarrow> pystr \<Rightarrow> path" where
  "truediv p s =
     (let q = Path s
      in if root q \<noteq> [] then q else \<lparr>root = root p, parts = parts p @ parts q\<rparr>)"

section \<open>Exceptions\<close>

datatype exn =
    FileNotFoundError
  | NotADirectoryError
  | FileExistsError
  | IsADirectoryError
  | CalledProcessError "pystr list" int
  | ValueError
  | KeyError

text \<open>\<open>p.with_suffix(suffix)\<close>, with its three \<open>ValueError\<close>s.\<close>

definition with_suffix :: "path \<Rightarrow> pystr \<Rightarrow> exn + path" where
  "with_suffix p sfx =
     (if slash \<in> set sfx then Inl ValueError
      else if (sfx \<noteq> [] \<and> take 1 sfx \<noteq> [dot]) \<or> sfx = [dot] then Inl ValueError
      else if name p = [] then Inl ValueError
      else let old_suffix = suffix p;
               n = (if old_suffix = [] then name p @ sfx
                    else take (length (name p) - length old_suffix) (name p) @ sfx)
           in Inr (p\<lparr>parts := butlast (parts p) @ [n]\<rparr>))"

section \<open>json.dumps with an indent\<close>

text \<open>
  The values \<open>json.dump\<close> is given here: strings, integers, lists, and dictionaries, whose
  items are kept in insertion order as Python dictionaries keep them.
\<close>

datatype json =
    JStr pystr
  | JInt int
  | JList "json list"
  | JDict "(pystr \<times> json) list"

text \<open>
  String encoding with \<open>ensure_ascii\<close> (the default): the quote and the backslash get
  a backslash, five control characters have short escapes, the printable ASCII range
  \<open>0x20\<close> to \<open>0x7e\<close> stands for itself, and every other code point becomes \<open>\uXXXX\<close>
  (lower-case hexadecimal), as a surrogate pair from \<open>0x10000\<close> on.
\<close>

definition hexdigit :: "nat \<Rightarrow> nat" where
  "hexdigit d = (if d < 10 then 48 + d else 87 + d)"

definition hex4 :: "nat \<Rightarrow> pystr" where
  "hex4 n =
     [hexdigit (n div 4096 mod 16), hexdigit (n div 256 mod 16),
      hexdigit (n div 16 mod 16), hexdigit (n mod 16)]"

definition uescape :: "nat \<Rightarrow> pystr" where
  "uescape n = [92, 117] @ hex4 n"

definition escape_char :: "nat \<Rightarrow> pystr" where
  "escape_char c =
     (if c = 34 then [92, 34]
      else if c = 92 then [92, 92]
      else if c = 8 then [92, 98]
      else if c = 12 then [92, 102]
      else if c = 10 then [92, 110]
      else if c = 13 then [92, 114]
      else if c = 9 then [92, 116]
      else if 32 \<le> c \<and> c \<le> 126 then [c]
      else if c < 65536 then uescape c
      else uescape (55296 + (c - 65536) div 1024 mod 1024)
             @ uescape (56320 + (c - 65536) mod 1024))"

definition encode_str :: "pystr \<Rightarrow> pystr" where
  "encode_str s = [34] @ concat (map escape_char s) @ [34]"

definition newline_indent :: "nat \<Rightarrow> nat \<Rightarrow> pystr" where
  "newline_indent ind lvl = newline # replicate (ind * lvl) 32"

text \<open>
  \<open>json.dumps(v, indent=ind)\<close> at nesting level \<open>lvl\<close>: with an indent the item separator
  is a comma and the key separator is a colon and a space; an empty list or dictionary
  is written without a line break.
\<close>

fun dumps :: "nat \<Rightarrow> nat \<Rightarrow> json \<Rightarrow> pystr" where
  "dumps ind lvl (JStr s) = encode_str s"
| "dumps ind lvl (JInt i) = str_int i"
| "dumps ind lvl (JList xs) =
     (if xs = [] then u ''[]''
      else u ''['' @ newline_indent ind (lvl + 1)
           @ join (u '','' @ newline_indent ind (lvl + 1)) (map (dumps ind (lvl + 1)) xs)
           @ newline_indent ind lvl @ u '']'')"
| "dumps ind lvl (JDict kvs) =
     (if kvs = [] then u ''{}''
      else u ''{'' @ newline_indent ind (lvl + 1)
           @ join (u '','' @ newline_indent ind (lvl + 1))
               (map (\<lambda>(k, v). encode_str k @ u '': '' @ dumps ind (lvl + 1) v) kvs)
           @ newline_indent ind lvl @ u ''}'')"

section \<open>The world the script runs in\<close>

text \<open>
  The file system is a tree of regular files and directories, keyed by the absolute
  location (the component names from the root).  There are no symbolic links, no
  permissions and no limits on names or space, so the only errors of a system call are
  those that follow from the shape of the tree.
\<close>

datatype node = File pystr | Dir

type_synonym fsys = "pystr list \<Rightarrow> node option"

text \<open>What running an external command gave: the binary was not found, or the process
  exited with a return code (negative when a signal ended it).  These are the two
  failures the script names in its \<open>except\<close> clauses; a binary that is found but may not
  be executed is, like every permission, outside the model.\<close>

datatype proc_outcome = NotFound | Exited int

text \<open>
  \<open>stdout\<close> holds one entry per \<open>print\<close> call, \<open>spawned\<close> one entry per
  \<open>subprocess.run\<close> call: the argument list and the file system the process was started in.
  The script never changes its working directory \<open>cwd\<close>.  Standard output is taken to
  accept every code point, so \<open>print\<close> does not raise.
\<close>

record world =
  fs :: fsys
  cwd :: "pystr list"
  stdout :: "pystr list"
  spawned :: "(pystr list \<times> fsys) list"

text \<open>
  What the script takes from outside: the outcome of each external command, the clock
  reading \<open>datetime.now().isoformat()\<close>, and the text Python renders for an exception in an
  f-string.  A version query is taken not to change the file system; the images a
  rasterizer writes are not part of the model.
\<close>

record env =
  proc :: "pystr list \<Rightarrow> proc_outcome"
  now :: pystr
  exn_text :: "exn \<Rightarrow> pystr"

definition print :: "pystr \<Rightarrow> world \<Rightarrow> world" where
  "print s w = w\<lparr>stdout := stdout w @ [s]\<rparr>"

text \<open>\<open>subprocess.run(cmd, check=True)\<close>: a missing binary raises \<open>FileNotFoundError\<close>, a
  non-zero return code raises \<open>CalledProcessError\<close>.\<close>

definition subprocess_run :: "env \<Rightarrow> pystr list \<Rightarrow> world \<Rightarrow> (exn + unit) \<times> world" where
  "subprocess_run e cmd w =
     (let w' = w\<lparr>spawned := spawned w @ [(cmd, fs w)]\<rparr>
      in case proc e cmd of
           NotFound \<Rightarrow> (Inl FileNotFoundError, w')
         | Exited rc \<Rightarrow> if rc \<noteq> 0 then (Inl (CalledProcessError cmd rc), w') else (Inr (), w'))"

subsection \<open>Path resolution and system calls\<close>

text \<open>
  Resolution walks the components from the starting directory.  Each component is looked
  up in a directory that must exist and be a directory; \<open>..\<close> goes to the parent, and the
  parent of the root is the root.  The system calls take the working directory \<open>cw\<close> and
  the file system \<open>f\<close>.
\<close>

fun walk :: "fsys \<Rightarrow> pystr list \<Rightarrow> pystr list \<Rightarrow> exn + pystr list" where
  "walk f cur [] = Inr cur"
| "walk f cur (c # cs) =
     (case f cur of
        None \<Rightarrow> Inl FileNotFoundError
      | Some (File _) \<Rightarrow> Inl NotADirectoryError
      | Some Dir \<Rightarrow> walk f (if c = [dot, dot] then butlast cur else cur @ [c]) cs)"

definition resolve :: "pystr list \<Rightarrow> fsys \<Rightarrow> path \<Rightarrow> exn + pystr list" where
  "resolve cw f p = walk f (if root p = [] then cw else []) (parts p)"

text \<open>\<open>p.exists()\<close> and \<open>p.is_dir()\<close>: a failed \<open>stat\<close> (no such entry, or a component that
  is not a directory) answers \<open>False\<close>.\<close>

definition exists :: "pystr list \<Rightarrow> fsys \<Rightarrow> path \<Rightarrow> bool" where
  "exists cw f p = (case resolve cw f p of Inl _ \<Rightarrow> False | Inr loc \<Rightarrow> f loc \<noteq> None)"

definition is_dir :: "pystr list \<Rightarrow> fsys \<Rightarrow> path \<Rightarrow> bool" where
  "is_dir cw f p = (case resolve cw f p of Inl _ \<Rightarrow> False | Inr loc \<Rightarrow> f loc = Some Dir)"

text \<open>\<open>os.mkdir(p)\<close>: the entry must not exist; a path that ends in \<open>..\<close> or has no
  component names a directory that is already there.\<close>

definition os_mkdir :: "pystr list \<Rightarrow> fsys \<Rightarrow> path \<Rightarrow> exn + fsys" where
  "os_mkdir cw f p =
     (case resolve cw f p of
        Inl ex \<Rightarrow> Inl ex
      | Inr loc \<Rightarrow>
          if parts p = [] \<or> last (parts p) = [dot, dot] \<or> f loc \<noteq> None
          then Inl FileExistsError
          else Inr (f(loc \<mapsto> Dir)))"

text \<open>
  \<open>p.mkdir(parents=True, exist_ok=True)\<close> as pathlib writes it: try \<open>os.mkdir\<close>; when an
  ancestor is missing, make the parent the same way and then the directory itself
  without \<open>parents\<close>; any other error is swallowed when the path is a directory.
  Directories made before an error stay.
\<close>

definition mkdir_leaf :: "pystr list \<Rightarrow> fsys \<Rightarrow> path \<Rightarrow> (exn + unit) \<times> fsys" where
  "mkdir_leaf cw f p =
     (case os_mkdir cw f p of
        Inr f' \<Rightarrow> (Inr (), f')
      | Inl ex \<Rightarrow>
          if ex = FileNotFoundError then (Inl ex, f)
          else if is_dir cw f p then (Inr (), f)
          else (Inl ex, f))"

function mkdir :: "pystr list \<Rightarrow> fsys \<Rightarrow> path \<Rightarrow> (exn + unit) \<times> fsys" where
  "mkdir cw f p =
     (case os_mkdir cw f p of
        Inr f' \<Rightarrow> (Inr (), f')
      | Inl ex \<Rightarrow>
          if ex = FileNotFoundError then
            (if parts p = [] then (Inl ex, f)
             else (case mkdir cw f (parent p) of
                     (Inl ex', f1) \<Rightarrow> (Inl ex', f1)
                   | (Inr _, f1) \<Rightarrow> mkdir_leaf cw f1 p))
          else if is_dir cw f p then (Inr (), f)
          else (Inl ex, f))"
  by pat_completeness auto
termination
  by (relation "measure (\<lambda>(cw, f, p). length (parts p))") (auto simp: parent_def)

declare mkdir.simps [simp del]

text \<open>\<open>open(p, 'w')\<close>, the writes, and the close: the file is created or truncated and
  then holds the text written.\<close>

definition open_write :: "pystr list \<Rightarrow> fsys \<Rightarrow> path \<Rightarrow> pystr \<Rightarrow> exn + fsys" where
  "open_write cw f p txt =
     (case resolve cw f p of
        Inl ex \<Rightarrow> Inl ex
      | Inr loc \<Rightarrow>
          if parts p = [] \<or> last (parts p) = [dot, dot] \<or> f loc = Some Dir
          then Inl IsADirectoryError
          else Inr (f(loc \<mapsto> File txt)))"

section \<open>The script\<close>

text \<open>
  The functions of \<open>generate_test_references.py\<close> that \<open>main\<close> calls, and
  \<open>pdf_to_images\<close>.  The GUI automation \<open>pptx_to_pdf_with_preview\<close> is called from
  nowhere and is left out.
\<close>

subsection \<open>\<open>check_dependencies\<close>\<close>

definition tools :: "(pystr \<times> pystr list) list" where
  "tools =
     [(u ''ImageMagick'', [u ''convert'', u ''--version'']),
      (u ''Ghostscript'', [u ''gs'', u ''--version''])]"

text \<open>The exceptions the \<open>except\<close> clause of the probe names.\<close>

fun probe_caught :: "exn \<Rightarrow> bool" where
  "probe_caught (CalledProcessError _ _) = True"
| "probe_caught FileNotFoundError = True"
| "probe_caught _ = False"

text \<open>The loop over \<open>tools.items()\<close>, in insertion order; \<open>available\<close> is the dictionary
  being filled.  An exception the clause does not name leaves the loop.\<close>

fun probe_loop ::
  "env \<Rightarrow> (pystr \<times> pystr list) list \<Rightarrow> (pystr \<rightharpoonup> bool) \<Rightarrow> world
     \<Rightarrow> (exn + (pystr \<rightharpoonup> bool)) \<times> world" where
  "probe_loop e [] available w = (Inr available, w)"
| "probe_loop e ((nm, cmd) # rest) available w =
     (case subprocess_run e cmd w of
        (Inr _, w1) \<Rightarrow>
          probe_loop e rest (available(nm \<mapsto> True))
            (print (tick # u '' '' @ nm @ u '' is installed'') w1)
      | (Inl ex, w1) \<Rightarrow>
          if probe_caught ex
          then probe_loop e rest (available(nm \<mapsto> False))
                 (print (cross # u '' '' @ nm @ u '' is not installed'') w1)
          else (Inl ex, w1))"

definition check_dependencies :: "env \<Rightarrow> world \<Rightarrow> (exn + (pystr \<rightharpoonup> bool)) \<times> world" where
  "check_dependencies e w = probe_loop e tools Map.empty w"

subsection \<open>\<open>pdf_to_images\<close>\<close>

text \<open>The clause \<open>except subprocess.CalledProcessError\<close> of the rasterizer invoker.\<close>

fun convert_caught :: "exn \<Rightarrow> bool" where
  "convert_caught (CalledProcessError _ _) = True"
| "convert_caught _ = False"

definition convert_cmd :: "pystr \<Rightarrow> path \<Rightarrow> int \<Rightarrow> pystr list" where
  "convert_cmd pdf_path output_dir dpi =
     [u ''convert'', u ''-density'', str_int dpi, u ''-quality'', u ''100'', pdf_path,
      str_path (truediv output_dir (u ''slide-%d.png''))]"

definition pdf_to_images ::
  "env \<Rightarrow> pystr \<Rightarrow> pystr \<Rightarrow> int \<Rightarrow> world \<Rightarrow> (exn + unit) \<times> world" where
  "pdf_to_images e pdf_path output_dir_arg dpi w =
     (let output_dir = Path output_dir_arg
      in case mkdir (cwd w) (fs w) output_dir of
           (Inl ex, f1) \<Rightarrow> (Inl ex, w\<lparr>fs := f1\<rparr>)
         | (Inr _, f1) \<Rightarrow>
             (case subprocess_run e (convert_cmd pdf_path output_dir dpi) (w\<lparr>fs := f1\<rparr>) of
                (Inr _, w2) \<Rightarrow>
                  (Inr (),
                   print (tick # u '' Converted PDF to images in '' @ str_path output_dir) w2)
              | (Inl ex, w2) \<Rightarrow>
                  if convert_caught ex
                  then (Inr (),
                        print (cross # u '' Failed to convert PDF: '' @ exn_text e ex) w2)
                  else (Inl ex, w2)))"

subsection \<open>\<open>generate_reference_data\<close>\<close>

definition metadata :: "env \<Rightarrow> path \<Rightarrow> (pystr \<times> json) list" where
  "metadata e pptx_path =
     [(u ''source'', JStr (str_path pptx_path)),
      (u ''generated'', JStr (now e)),
      (u ''method'', JStr (u ''manual'')),
      (u ''dpi'', JInt 300),
      (u ''slides'', JList [])]"

definition generate_reference_data :: "env \<Rightarrow> path \<Rightarrow> world \<Rightarrow> (exn + unit) \<times> world" where
  "generate_reference_data e pptx_path w =
     (case with_suffix pptx_path (u ''.json'') of
        Inl ex \<Rightarrow> (Inl ex, w)
      | Inr output_path \<Rightarrow>
          (case open_write (cwd w) (fs w) output_path
                  (dumps 2 0 (JDict (metadata e pptx_path))) of
             Inl ex \<Rightarrow> (Inl ex, w)
           | Inr f1 \<Rightarrow>
               (Inr (),
                print (tick # u '' Generated metadata: '' @ str_path output_path)
                  (w\<lparr>fs := f1\<rparr>))))"

subsection \<open>\<open>main\<close>\<close>

definition usage :: "world \<Rightarrow> world" where
  "usage w =
     print (newline # u ''when LibreOffice is not available.'')
       (print (newline # u ''This script demonstrates how to generate reference images'')
          (print (newline # u ''Usage: python3 generate_test_references.py <pptx_file>'') w))"

text \<open>The part of \<open>main\<close> after the metadata is written: instructions are printed, nothing
  is run.\<close>

definition instructions ::
  "(pystr \<rightharpoonup> bool) \<Rightarrow> path \<Rightarrow> path \<Rightarrow> world \<Rightarrow> (exn + unit) \<times> world" where
  "instructions deps pptx_path output_dir w =
     (let w1 = print (newline # u ''LibreOffice command (if available):'') w;
          w2 = print (u ''soffice --headless --convert-to pdf --outdir '' @ str_path output_dir
                        @ u '' '' @ str_path pptx_path) w1
      in case deps (u ''ImageMagick'') of
           None \<Rightarrow> (Inl KeyError, w2)
         | Some im \<Rightarrow>
             (let w3 = (if im
                        then print (u ''convert -density 300 <pdf_file> '' @ str_path output_dir
                                      @ u ''/slide-%d.png'')
                               (print (newline # u ''To convert existing PDFs to images:'') w2)
                        else w2)
              in (Inr (), print (newline # tick # u '' Reference generation setup complete'') w3)))"

text \<open>
  \<open>argv\<close> is \<open>sys.argv\<close>: the script name, then the arguments.  \<open>main_body\<close> is
  \<open>main\<close> from the test of \<open>len(sys.argv)\<close> on, with the dictionary the probe returned.
\<close>

definition main_body ::
  "env \<Rightarrow> (pystr \<rightharpoonup> bool) \<Rightarrow> pystr list \<Rightarrow> world \<Rightarrow> (exn + unit) \<times> world" where
  "main_body e deps argv w =
     (if length argv < 2 then (Inr (), usage w)
      else
        (let pptx_path = Path (argv ! 1)
         in if \<not> exists (cwd w) (fs w) pptx_path
            then (Inr (), print (u ''Error: File not found: '' @ str_path pptx_path) w)
            else
              (let output_dir = truediv (Path (u ''tests/references'')) (stem pptx_path)
               in case mkdir (cwd w) (fs w) output_dir of
                    (Inl ex, f1) \<Rightarrow> (Inl ex, w\<lparr>fs := f1\<rparr>)
                  | (Inr _, f1) \<Rightarrow>
                      (let w1 = print (u ''Output directory: '' @ str_path output_dir)
                                  (print (newline # u ''Processing: '' @ str_path pptx_path)
                                     (w\<lparr>fs := f1\<rparr>))
                       in case generate_reference_data e pptx_path w1 of
                            (Inl ex, w2) \<Rightarrow> (Inl ex, w2)
                          | (Inr _, w2) \<Rightarrow> instructions deps pptx_path output_dir w2))))"

definition main :: "env \<Rightarrow> pystr list \<Rightarrow> world \<Rightarrow> (exn + unit) \<times> world" where
  "main e argv w =
     (let w1 = print (replicate 40 61) (print (u ''PPTX Test Reference Generator'') w)
      in case check_dependencies e w1 of
           (Inl ex, w2) \<Rightarrow> (Inl ex, w2)
         | (Inr deps, w2) \<Rightarrow> main_body e deps argv w2)"

text \<open>The exit status of the process: zero when \<open>main\<close> returns, one when an exception
  leaves it.\<close>

definition exit_status :: "(exn + unit) \<times> world \<Rightarrow> int" where
  "exit_status r = (case fst r of Inl _ \<Rightarrow> 1 | Inr _ \<Rightarrow> 0)"

section \<open>A concrete run\<close>

text \<open>
  A small world for the examples: the working directory \<open>/home\<close> holds a slide deck
  \<open>a.pptx\<close>, a file \<open>deck.json\<close>, a hidden file \<open>.json\<close> and a directory \<open>shots\<close>;
  ImageMagick answers its version query, Ghostscript is missing.
\<close>

definition env0 :: env where
  "env0 =
     \<lparr>proc = (\<lambda>cmd. if cmd = [u ''convert'', u ''--version''] then Exited 0 else NotFound),
      now = u ''2024-01-02T03:04:05.678901'',
      exn_text = (\<lambda>_. u ''non-zero exit status'')\<rparr>"

definition env1 :: env where
  "env1 =
     \<lparr>proc = (\<lambda>cmd. if cmd = [u ''gs'', u ''--version''] then Exited 0 else Exited 1),
      now = u ''2024-05-06T07:08:09.101112'',
      exn_text = (\<lambda>_. u ''non-zero exit status'')\<rparr>"

definition fs0 :: fsys where
  "fs0 =
     [[] \<mapsto> Dir,
      [u ''home''] \<mapsto> Dir,
      [u ''home'', u ''a.pptx''] \<mapsto> File (u ''PK''),
      [u ''home'', u ''deck.json''] \<mapsto> File (u ''slides''),
      [u ''home'', u ''.json''] \<mapsto> File (u ''hidden''),
      [u ''home'', u ''shots''] \<mapsto> Dir]"

definition world0 :: world where
  "world0 = \<lparr>fs = fs0, cwd = [u ''home''], stdout = [], spawned = []\<rparr>"

section \<open>Notions used in the statements\<close>

text \<open>
  \<open>grows names f g\<close>: the file system \<open>g\<close> is \<open>f\<close> with new directories only, each at
  a location that was free and whose last component is one of \<open>names\<close>.
\<close>

definition grows :: "pystr set \<Rightarrow> fsys \<Rightarrow> fsys \<Rightarrow> bool" where
  "grows names f g =
     (\<forall>k. g k = f k \<or> (f k = None \<and> g k = Some Dir \<and> k \<noteq> [] \<and> last k \<in> names))"

section \<open>What printing and spawning leave alone\<close>

lemma fs_print [simp]: "fs (print s w) = fs w"
  by (simp add: print_def)

lemma cwd_print [simp]: "cwd (print s w) = cwd w"
  by (simp add: print_def)

lemma spawned_print [simp]: "spawned (print s w) = spawned w"
  by (simp add: print_def)

lemma stdout_print [simp]: "stdout (print s w) = stdout w @ [s]"
  by (simp add: print_def)

lemma subprocess_run_frame [simp]:
  "fs (snd (subprocess_run e cmd w)) = fs w"
  "cwd (snd (subprocess_run e cmd w)) = cwd w"
  "stdout (snd (subprocess_run e cmd w)) = stdout w"
  "spawned (snd (subprocess_run e cmd w)) = spawned w @ [(cmd, fs w)]"
  by (simp_all add: subprocess_run_def Let_def split: proc_outcome.splits)

lemma subprocess_run_result:
  "fst (subprocess_run e cmd w) =
     (case proc e cmd of
        NotFound \<Rightarrow> Inl FileNotFoundError
      | Exited rc \<Rightarrow> if rc \<noteq> 0 then Inl (CalledProcessError cmd rc) else Inr ())"
  by (simp add: subprocess_run_def Let_def split: proc_outcome.splits)

section \<open>The dependency prober\<close>

text \<open>One turn of the loop: both handlers end in the next turn, with the flag telling
  whether the version query ran and returned zero.\<close>

lemma probe_step:
  "probe_loop e ((nm, cmd) # rest) available w =
     (if proc e cmd = Exited 0
      then probe_loop e rest (available(nm \<mapsto> True))
             (print (tick # u '' '' @ nm @ u '' is installed'')
                (w\<lparr>spawned := spawned w @ [(cmd, fs w)]\<rparr>))
      else probe_loop e rest (available(nm \<mapsto> False))
             (print (cross # u '' '' @ nm @ u '' is not installed'')
                (w\<lparr>spawned := spawned w @ [(cmd, fs w)]\<rparr>)))"
  by (simp add: subprocess_run_def Let_def split: proc_outcome.splits)

lemma check_dependencies_result:
  "fst (check_dependencies e w) =
     Inr [u ''ImageMagick'' \<mapsto> (proc e [u ''convert'', u ''--version''] = Exited 0),
          u ''Ghostscript'' \<mapsto> (proc e [u ''gs'', u ''--version''] = Exited 0)]"
  unfolding check_dependencies_def tools_def probe_step by simp

lemma check_dependencies_frame:
  "fs (snd (check_dependencies e w)) = fs w"
  "cwd (snd (check_dependencies e w)) = cwd w"
  "spawned (snd (check_dependencies e w)) =
     spawned w @ [([u ''convert'', u ''--version''], fs w), ([u ''gs'', u ''--version''], fs w)]"
  unfolding check_dependencies_def tools_def probe_step by simp_all



section \<open>The file system calls\<close>

text \<open>Resolution only reads directories, so it gives the same location in any file
  system that keeps them.\<close>

lemma walk_append:
  "walk f cur (xs @ ys) = (case walk f cur xs of Inl ex \<Rightarrow> Inl ex | Inr d \<Rightarrow> walk f d ys)"
  by (induction xs arbitrary: cur) (auto split: option.splits node.splits)

lemma walk_mono:
  "walk f cur cs = Inr d \<Longrightarrow> (\<And>k. f k = Some Dir \<Longrightarrow> g k = Some Dir) \<Longrightarrow> walk g cur cs = Inr d"
proof (induction cs arbitrary: cur)
  case Nil
  then show ?case by simp
next
  case (Cons c cs)
  from Cons.prems(1) have d: "f cur = Some Dir"
    by (auto split: option.splits node.splits)
  then have "g cur = Some Dir" by (rule Cons.prems(2))
  with d Cons show ?case by simp
qed

lemma walk_last:
  assumes "walk f cur (cs @ [c]) = Inr loc"
  shows "\<exists>d. walk f cur cs = Inr d \<and> f d = Some Dir \<and> loc = (if c = [dot, dot] then butlast d else d @ [c])"
  using assms by (auto simp: walk_append split: sum.splits option.splits node.splits)

lemma os_mkdir_Inr:
  assumes "os_mkdir cw f p = Inr g"
  shows "\<exists>loc. resolve cw f p = Inr loc \<and> f loc = None \<and> g = f(loc \<mapsto> Dir)
           \<and> parts p \<noteq> [] \<and> last (parts p) \<noteq> [dot, dot] \<and> loc \<noteq> [] \<and> last loc = last (parts p)"
proof -
  from assms obtain loc where r: "resolve cw f p = Inr loc" and n: "f loc = None"
    and g: "g = f(loc \<mapsto> Dir)" and ne: "parts p \<noteq> []" and nd: "last (parts p) \<noteq> [dot, dot]"
    by (auto simp: os_mkdir_def split: sum.splits if_splits)
  from ne have "parts p = butlast (parts p) @ [last (parts p)]" by simp
  with r have "walk f (if root p = [] then cw else []) (butlast (parts p) @ [last (parts p)]) = Inr loc"
    by (simp add: resolve_def)
  from walk_last [OF this] nd obtain d where "loc = d @ [last (parts p)]" by auto
  with r n g ne nd show ?thesis by auto
qed

lemma grows_refl: "grows names f f" by (simp add: grows_def)
lemma grows_trans: "grows names f g \<Longrightarrow> grows names g h \<Longrightarrow> grows names f h"
  unfolding grows_def by metis
lemma grows_mono: "grows A f g \<Longrightarrow> A \<subseteq> B \<Longrightarrow> grows B f g"
  unfolding grows_def by blast

lemma os_mkdir_grows:
  assumes "os_mkdir cw f p = Inr g"
  shows "grows (set (parts p)) f g"
proof -
  from os_mkdir_Inr [OF assms] obtain loc where n: "f loc = None" and g: "g = f(loc \<mapsto> Dir)"
    and ne: "loc \<noteq> []" and l: "last loc = last (parts p)" and pne: "parts p \<noteq> []"
    by blast
  from l pne have "last loc \<in> set (parts p)" by simp
  with n g ne show ?thesis by (simp add: grows_def)
qed

lemma mkdir_leaf_grows: "grows (set (parts p)) f (snd (mkdir_leaf cw f p))"
  by (auto simp: mkdir_leaf_def grows_refl os_mkdir_grows split: sum.splits)

lemma mkdir_grows: "grows (set (parts p)) f (snd (mkdir cw f p))"
proof (induction cw f p rule: mkdir.induct)
  case (1 cw f p)
  show ?case
  proof (cases "os_mkdir cw f p")
    case (Inr g)
    then show ?thesis by (simp add: mkdir.simps [of cw f p] os_mkdir_grows)
  next
    case (Inl ex)
    show ?thesis
    proof (cases "ex = FileNotFoundError \<and> parts p \<noteq> []")
      case False
      with Inl show ?thesis by (auto simp: mkdir.simps [of cw f p] grows_refl)
    next
      case True
      with Inl "1.IH" have ih: "grows (set (parts (parent p))) f (snd (mkdir cw f (parent p)))"
        by simp
      have sub: "set (parts (parent p)) \<subseteq> set (parts p)"
        by (auto simp: parent_def dest: in_set_butlastD)
      obtain r f1 where m: "mkdir cw f (parent p) = (r, f1)" by (cases "mkdir cw f (parent p)")
      with ih sub have g1: "grows (set (parts p)) f f1" by (auto intro: grows_mono)
      show ?thesis
      proof (cases r)
        case (Inl a)
        with m True \<open>os_mkdir cw f p = Inl ex\<close> g1 show ?thesis
          by (simp add: mkdir.simps [of cw f p])
      next
        case (Inr b)
        with m True \<open>os_mkdir cw f p = Inl ex\<close>
        have "mkdir cw f p = mkdir_leaf cw f1 p" by (simp add: mkdir.simps [of cw f p])
        with g1 mkdir_leaf_grows [of p f1 cw] show ?thesis by (auto intro: grows_trans)
      qed
    qed
  qed
qed

lemma grows_keeps: "grows A f g \<Longrightarrow> f k = Some n \<Longrightarrow> g k = Some n"
  unfolding grows_def by (metis option.distinct(1))

lemma resolve_mono:
  "resolve cw f p = Inr loc \<Longrightarrow> (\<And>k. f k = Some Dir \<Longrightarrow> g k = Some Dir) \<Longrightarrow> resolve cw g p = Inr loc"
  unfolding resolve_def by (rule walk_mono)

lemma is_dir_mono:
  "is_dir cw f p \<Longrightarrow> (\<And>k. f k = Some Dir \<Longrightarrow> g k = Some Dir) \<Longrightarrow> is_dir cw g p"
  unfolding is_dir_def by (auto split: sum.splits dest: resolve_mono [where g = g])

lemma mkdir_leaf_is_dir: "mkdir_leaf cw f p = (Inr (), g) \<Longrightarrow> is_dir cw g p"
proof -
  assume a: "mkdir_leaf cw f p = (Inr (), g)"
  show ?thesis
  proof (cases "os_mkdir cw f p")
    case (Inr g')
    with a have [simp]: "g' = g" by (simp add: mkdir_leaf_def)
    from os_mkdir_Inr [OF Inr] obtain loc where r: "resolve cw f p = Inr loc" and g: "g = f(loc \<mapsto> Dir)" and "f loc = None"
      by auto
    then have "resolve cw g p = Inr loc" by (intro resolve_mono [OF r]) auto
    with g show ?thesis by (simp add: is_dir_def)
  next
    case (Inl ex)
    with a show ?thesis by (auto simp: mkdir_leaf_def split: if_splits)
  qed
qed

lemma mkdir_is_dir: "mkdir cw f p = (Inr (), g) \<Longrightarrow> is_dir cw g p"
proof -
  assume a: "mkdir cw f p = (Inr (), g)"
  show ?thesis
  proof (cases "os_mkdir cw f p")
    case (Inr g')
    then have "mkdir_leaf cw f p = mkdir cw f p" by (simp add: mkdir_leaf_def mkdir.simps [of cw f p])
    with a show ?thesis by (auto intro: mkdir_leaf_is_dir)
  next
    case (Inl ex)
    with a show ?thesis
      by (auto simp: mkdir.simps [of cw f p] split: if_splits prod.splits sum.splits intro: mkdir_leaf_is_dir)
  qed
qed

lemma is_dir_mkdir: "is_dir cw f p \<Longrightarrow> mkdir cw f p = (Inr (), f)"
  by (auto simp: mkdir.simps [of cw f p] os_mkdir_def is_dir_def split: sum.splits)

section \<open>The entry point\<close>

lemma check_dependencies_eq:
  "\<exists>w'. check_dependencies e w =
          (Inr [u ''ImageMagick'' \<mapsto> (proc e [u ''convert'', u ''--version''] = Exited 0),
                u ''Ghostscript'' \<mapsto> (proc e [u ''gs'', u ''--version''] = Exited 0)], w')
        \<and> fs w' = fs w \<and> cwd w' = cwd w
        \<and> spawned w' = spawned w @ [([u ''convert'', u ''--version''], fs w), ([u ''gs'', u ''--version''], fs w)]"
  using check_dependencies_result [of e w] check_dependencies_frame [of e w]
  by (cases "check_dependencies e w") auto

lemma generate_reference_data_frame:
  "generate_reference_data e p w = (r, w') \<Longrightarrow> cwd w' = cwd w \<and> spawned w' = spawned w"
  by (auto simp: generate_reference_data_def split: sum.splits)

lemma generate_reference_data_Inl:
  "generate_reference_data e p w = (Inl ex, w') \<Longrightarrow> w' = w"
  by (auto simp: generate_reference_data_def split: sum.splits)

lemma generate_reference_data_Inr:
  "generate_reference_data e p w = (Inr x, w') \<Longrightarrow>
     \<exists>out f1. with_suffix p (u ''.json'') = Inr out
       \<and> open_write (cwd w) (fs w) out (dumps 2 0 (JDict (metadata e p))) = Inr f1
       \<and> w' = print (tick # u '' Generated metadata: '' @ str_path out) (w\<lparr>fs := f1\<rparr>)"
  by (auto simp: generate_reference_data_def split: sum.splits)

lemma instructions_frame:
  "instructions deps p out w = (r, w') \<Longrightarrow> fs w' = fs w \<and> cwd w' = cwd w \<and> spawned w' = spawned w"
  by (auto simp: instructions_def Let_def split: option.splits)

lemma instructions_snd [simp]:
  "fs (snd (instructions deps p out w)) = fs w"
  "cwd (snd (instructions deps p out w)) = cwd w"
  "spawned (snd (instructions deps p out w)) = spawned w"
  by (auto simp: instructions_def Let_def split: option.splits)

lemma instructions_fst: "deps (u ''ImageMagick'') = Some b \<Longrightarrow> fst (instructions deps p out w) = Inr ()"
  by (simp add: instructions_def Let_def)

lemma usage_frame [simp]: "fs (usage w) = fs w" "cwd (usage w) = cwd w" "spawned (usage w) = spawned w"
  by (simp_all add: usage_def)

lemma main_probed:
  "\<exists>deps w2 b. deps (u ''ImageMagick'') = Some b
     \<and> fs w2 = fs w \<and> cwd w2 = cwd w
     \<and> spawned w2 = spawned w @ [([u ''convert'', u ''--version''], fs w), ([u ''gs'', u ''--version''], fs w)]
     \<and> main e argv w = main_body e deps argv w2"
proof -
  let ?w1 = "print (replicate 40 61) (print (u ''PPTX Test Reference Generator'') w)"
  let ?deps = "[u ''ImageMagick'' \<mapsto> (proc e [u ''convert'', u ''--version''] = Exited 0),
                u ''Ghostscript'' \<mapsto> (proc e [u ''gs'', u ''--version''] = Exited 0)]"
  from check_dependencies_eq [of e ?w1]
  obtain w2 where cd: "check_dependencies e ?w1 = (Inr ?deps, w2)"
    and f: "fs w2 = fs w" and c: "cwd w2 = cwd w"
    and sp: "spawned w2 = spawned w @ [([u ''convert'', u ''--version''], fs w), ([u ''gs'', u ''--version''], fs w)]"
    by auto
  have im: "u ''ImageMagick'' \<noteq> u ''Ghostscript''" by (simp add: u_def)
  have "?deps (u ''ImageMagick'') = Some (proc e [u ''convert'', u ''--version''] = Exited 0)"
    using im by simp
  moreover have "main e argv w = main_body e ?deps argv w2"
    by (simp add: main_def cd)
  ultimately show ?thesis using f c sp by blast
qed

lemma main_body_spawned: "spawned (snd (main_body e deps argv w)) = spawned w"
  by (auto simp: main_body_def Let_def split: prod.splits sum.splits dest!: generate_reference_data_frame)

lemma main_spawned:
  "spawned (snd (main e argv w)) =
     spawned w @ [([u ''convert'', u ''--version''], fs w), ([u ''gs'', u ''--version''], fs w)]"
  using main_probed [of w e argv] by (auto simp: main_body_spawned)






section \<open>Suffix and stem\<close>

lemma u_json: "u ''.json'' = [dot, 106, 115, 111, 110]"
  by (simp add: u_def dot_def)

lemma rfind_json: "rfind dot (base @ u ''.json'') = int (length base)"
  by (simp add: rfind_def u_json dot_def)

lemma suffix_cases:
  "(suffix p = [] \<and> stem p = name p) \<or> (suffix p \<noteq> [] \<and> stem p @ suffix p = name p
      \<and> length (name p) - length (suffix p) = length (stem p))"
proof (cases "0 < rfind dot (name p) \<and> rfind dot (name p) < int (length (name p)) - 1")
  case False
  then show ?thesis by (auto simp: suffix_def stem_def Let_def)
next
  case True
  then have "nat (rfind dot (name p)) < length (name p)" by linarith
  with True show ?thesis by (auto simp: suffix_def stem_def Let_def)
qed

lemma stem_suffix: "stem p @ suffix p = name p"
  using suffix_cases [of p] by auto

lemma with_suffix_json:
  assumes "name p \<noteq> []"
  shows "with_suffix p (u ''.json'') = Inr (p\<lparr>parts := butlast (parts p) @ [stem p @ u ''.json'']\<rparr>)"
proof -
  have a: "slash \<notin> set (u ''.json'')" "take 1 (u ''.json'') = [dot]" "u ''.json'' \<noteq> []" "u ''.json'' \<noteq> [dot]"
    by (simp_all add: u_json slash_def dot_def)
  from suffix_cases [of p] show ?thesis
  proof
    assume "suffix p = [] \<and> stem p = name p"
    with assms a show ?thesis by (simp add: with_suffix_def Let_def)
  next
    assume b: "suffix p \<noteq> [] \<and> stem p @ suffix p = name p \<and> length (name p) - length (suffix p) = length (stem p)"
    then have "take (length (name p) - length (suffix p)) (name p) = stem p"
      by (metis append_eq_conv_conj)
    with assms a b show ?thesis by (simp add: with_suffix_def Let_def)
  qed
qed

lemma suffix_json:
  assumes "name p = base @ u ''.json''" and "base \<noteq> []"
  shows "suffix p = u ''.json''" and "stem p = base"
  using assms by (simp_all add: suffix_def stem_def Let_def rfind_json) (simp_all add: u_json)

lemma with_suffix_same:
  assumes "name p = base @ u ''.json''" and "base \<noteq> []"
  shows "with_suffix p (u ''.json'') = Inr p"
proof -
  from assms have n: "name p \<noteq> []" by simp
  then have pn: "parts p \<noteq> []" by (auto simp: name_def)
  from suffix_json [OF assms] assms have "stem p @ u ''.json'' = last (parts p)"
    using pn by (simp add: name_def)
  with pn have "butlast (parts p) @ [stem p @ u ''.json''] = parts p" by simp
  with with_suffix_json [OF n] show ?thesis by simp
qed

section \<open>The text written\<close>

lemma hexdigit_ascii: "d < 16 \<Longrightarrow> 32 \<le> hexdigit d \<and> hexdigit d < 127"
  by (simp add: hexdigit_def)

lemma hex4_ascii: "c \<in> set (hex4 n) \<Longrightarrow> 32 \<le> c \<and> c < 127"
  by (auto simp: hex4_def hexdigit_def)

lemma uescape_ascii: "c \<in> set (uescape n) \<Longrightarrow> 32 \<le> c \<and> c < 127"
  by (auto simp: uescape_def dest: hex4_ascii)

lemma escape_char_ascii: "c \<in> set (escape_char x) \<Longrightarrow> 32 \<le> c \<and> c < 127"
  by (auto simp: escape_char_def dest: uescape_ascii split: if_splits)

lemma encode_str_ascii: "c \<in> set (encode_str s) \<Longrightarrow> 32 \<le> c \<and> c < 127"
  by (auto simp: encode_str_def dest: escape_char_ascii)

lemma str_300: "str_int 300 = u ''300''"
  by (simp add: str_int_def str_nat.simps digit_def u_def)

lemma dumps_metadata:
  "dumps 2 0 (JDict (metadata e p)) =
     u ''{'' @ [newline, 32, 32] @ 34 # u ''source'' @ 34 # u '': '' @ encode_str (str_path p)
       @ u '','' @ [newline, 32, 32] @ 34 # u ''generated'' @ 34 # u '': '' @ encode_str (now e)
       @ u '','' @ [newline, 32, 32] @ 34 # u ''method'' @ 34 # u '': '' @ 34 # u ''manual'' @ 34
       # u '','' @ [newline, 32, 32] @ 34 # u ''dpi'' @ 34 # u '': 300''
       @ u '','' @ [newline, 32, 32] @ 34 # u ''slides'' @ 34 # u '': []''
       @ [newline] @ u ''}''"
proof -
  have enc: "encode_str (u ''source'') = 34 # u ''source'' @ [34]"
    "encode_str (u ''generated'') = 34 # u ''generated'' @ [34]"
    "encode_str (u ''method'') = 34 # u ''method'' @ [34]"
    "encode_str (u ''manual'') = 34 # u ''manual'' @ [34]"
    "encode_str (u ''dpi'') = 34 # u ''dpi'' @ [34]"
    "encode_str (u ''slides'') = 34 # u ''slides'' @ [34]"
    by (simp_all add: encode_str_def escape_char_def u_def)
  have nl: "newline_indent 2 (Suc 0) = [newline, 32, 32]" "newline_indent 2 0 = [newline]"
    by (simp_all add: newline_indent_def numeral_2_eq_2)
  show ?thesis
    by (simp add: metadata_def enc nl str_300) (simp add: u_def)
qed

lemma dumps_metadata_ascii:
  assumes "c \<in> set (dumps 2 0 (JDict (metadata e p)))"
  shows "c < 128"
proof -
  have lit: "\<And>c. c \<in> set (u ''{'') \<union> set (u ''source'') \<union> set (u '': '') \<union> set (u '','') \<union> set (u ''generated'')
     \<union> set (u ''method'') \<union> set (u ''manual'') \<union> set (u ''dpi'') \<union> set (u '': 300'') \<union> set (u ''slides'')
     \<union> set (u '': []'') \<union> set (u ''}'') \<Longrightarrow> c < 128"
    by (auto simp: u_def)
  from assms show ?thesis
    unfolding dumps_metadata
    by (auto simp: newline_def dest: encode_str_ascii lit [OF UnI1] intro: lit)
qed

section \<open>The metadata writer\<close>

lemma json_name_not_dotdot: "stem p @ u ''.json'' \<noteq> [dot, dot]"
  by (simp add: u_json)

lemma open_write_json:
  assumes "resolve cw f (p\<lparr>parts := butlast (parts p) @ [stem p @ u ''.json'']\<rparr>) = Inr loc"
    and "f loc \<noteq> Some Dir"
  shows "open_write cw f (p\<lparr>parts := butlast (parts p) @ [stem p @ u ''.json'']\<rparr>) txt
           = Inr (f(loc \<mapsto> File txt))"
  using assms by (simp add: open_write_def json_name_not_dotdot)

text \<open>
  Claim C4.  For a path with a name, the metadata writer derives its output path by
  replacing the suffix of the name (the name is stem and suffix, the new name is the stem
  followed by \<open>.json\<close>), and where that path can be opened for writing it holds
  afterwards the serialization of the record: an opening brace, then the five keys in the
  order source, generated, method, dpi, slides, each on a line of its own indented by two
  spaces, then the closing brace.  Every character written is ASCII, so the bytes of the
  file are the same in UTF-8 as in any other encoding that extends ASCII.
\<close>

theorem metadata_writer_output:
  assumes "name p \<noteq> []"
    and "resolve (cwd w) (fs w) (p\<lparr>parts := butlast (parts p) @ [stem p @ u ''.json'']\<rparr>) = Inr loc"
    and "fs w loc \<noteq> Some Dir"
  shows "stem p @ suffix p = name p
       \<and> with_suffix p (u ''.json'') = Inr (p\<lparr>parts := butlast (parts p) @ [stem p @ u ''.json'']\<rparr>)
       \<and> generate_reference_data e p w =
           (Inr (),
            print (tick # u '' Generated metadata: ''
                     @ str_path (p\<lparr>parts := butlast (parts p) @ [stem p @ u ''.json'']\<rparr>))
              (w\<lparr>fs := (fs w)(loc \<mapsto> File (dumps 2 0 (JDict (metadata e p))))\<rparr>))
       \<and> dumps 2 0 (JDict (metadata e p)) =
           u ''{'' @ [newline, 32, 32] @ 34 # u ''source'' @ 34 # u '': '' @ encode_str (str_path p)
             @ u '','' @ [newline, 32, 32] @ 34 # u ''generated'' @ 34 # u '': '' @ encode_str (now e)
             @ u '','' @ [newline, 32, 32] @ 34 # u ''method'' @ 34 # u '': '' @ 34 # u ''manual'' @ 34
             # u '','' @ [newline, 32, 32] @ 34 # u ''dpi'' @ 34 # u '': 300''
             @ u '','' @ [newline, 32, 32] @ 34 # u ''slides'' @ 34 # u '': []''
             @ [newline] @ u ''}''
       \<and> (\<forall>c \<in> set (dumps 2 0 (JDict (metadata e p))). c < 128)"
proof -
  have "generate_reference_data e p w =
           (Inr (),
            print (tick # u '' Generated metadata: ''
                     @ str_path (p\<lparr>parts := butlast (parts p) @ [stem p @ u ''.json'']\<rparr>))
              (w\<lparr>fs := (fs w)(loc \<mapsto> File (dumps 2 0 (JDict (metadata e p))))\<rparr>))"
    by (simp add: generate_reference_data_def with_suffix_json [OF assms(1)]
          open_write_json [OF assms(2,3)])
  then show ?thesis
    using stem_suffix [of p] with_suffix_json [OF assms(1)] dumps_metadata [of e p]
      dumps_metadata_ascii [of _ e p]
    by blast
qed

text \<open>For \<open>a.pptx\<close> in the example world the record goes to \<open>/home/a.json\<close>.\<close>

theorem metadata_writer_output_witness:
  "name (Path (u ''a.pptx'')) \<noteq> []
   \<and> fs world0 [u ''home'', u ''a.json''] \<noteq> Some Dir
   \<and> with_suffix (Path (u ''a.pptx'')) (u ''.json'') = Inr (Path (u ''a.json''))
   \<and> fs (snd (generate_reference_data env0 (Path (u ''a.pptx'')) world0)) [u ''home'', u ''a.json'']
       = Some (File (dumps 2 0 (JDict (metadata env0 (Path (u ''a.pptx''))))))"
proof -
  have n: "name (Path (u ''a.pptx'')) \<noteq> []"
    by (simp add: name_def Path_def splitroot_def u_def slash_def dot_def)
  have st: "(Path (u ''a.pptx''))\<lparr>parts := butlast (parts (Path (u ''a.pptx''))) @ [stem (Path (u ''a.pptx'')) @ u ''.json'']\<rparr>
       = Path (u ''a.json'')"
    by (simp add: stem_def name_def rfind_def Path_def splitroot_def u_def slash_def dot_def)
  have r: "resolve (cwd world0) (fs world0)
       ((Path (u ''a.pptx''))\<lparr>parts := butlast (parts (Path (u ''a.pptx''))) @ [stem (Path (u ''a.pptx'')) @ u ''.json'']\<rparr>)
       = Inr [u ''home'', u ''a.json'']"
    unfolding st
    by (simp add: resolve_def world0_def fs0_def Path_def splitroot_def u_def slash_def dot_def)
  have d: "fs world0 [u ''home'', u ''a.json''] \<noteq> Some Dir"
    by (simp add: world0_def fs0_def u_def)
  from metadata_writer_output [OF n r d, of env0] n d st show ?thesis
    by simp
qed

section \<open>The output directory and the metadata path do not meet\<close>

text \<open>A component of a parsed path is no longer than the string it was parsed from, so
  the metadata file's name, the stem followed by \<open>.json\<close>, is none of the components of
  \<open>tests/references/<stem>\<close>.\<close>

lemma split_sep_length: "x \<in> set (split_sep c s) \<Longrightarrow> length x \<le> length s"
proof (induction s arbitrary: x)
  case Nil
  then show ?case by simp
next
  case (Cons a s)
  show ?case
  proof (cases "a = c")
    case True
    with Cons show ?thesis by (auto simp: le_SucI)
  next
    case False
    show ?thesis
    proof (cases "split_sep c s")
      case Nil
      with Cons.prems False show ?thesis by simp
    next
      case (Cons y ys)
      with Cons.prems False have "x = a # y \<or> x \<in> set ys" by simp
      then show ?thesis
      proof
        assume "x = a # y"
        moreover have "length y \<le> length s" using Cons.IH [of y] Cons by simp
        ultimately show ?thesis by simp
      next
        assume "x \<in> set ys"
        then have "length x \<le> length s" using Cons.IH [of x] Cons by simp
        then show ?thesis by simp
      qed
    qed
  qed
qed

lemma Path_parts_length: "x \<in> set (parts (Path s)) \<Longrightarrow> length x \<le> length s"
proof -
  assume a: "x \<in> set (parts (Path s))"
  show ?thesis
  proof (cases "s = []")
    case True
    with a show ?thesis by (simp add: Path_def)
  next
    case False
    obtain r rel where sr: "splitroot s = (r, rel)" by (cases "splitroot s")
    then have "length rel \<le> length s" by (auto simp: splitroot_def split: if_splits)
    moreover from a False sr have "x \<in> set (split_sep slash rel)" by (simp add: Path_def)
    ultimately show ?thesis using split_sep_length [of x slash rel] by simp
  qed
qed

lemma output_dir_parts:
  "x \<in> set (parts (truediv (Path (u ''tests/references'')) s)) \<Longrightarrow>
     x = u ''tests'' \<or> x = u ''references'' \<or> length x \<le> length s"
proof -
  have p: "parts (Path (u ''tests/references'')) = [u ''tests'', u ''references'']"
    by (simp add: Path_def splitroot_def u_def slash_def dot_def)
  assume "x \<in> set (parts (truediv (Path (u ''tests/references'')) s))"
  then show ?thesis
    by (auto simp: truediv_def Let_def p dest: Path_parts_length split: if_splits)
qed

lemma json_name_not_output_dir:
  "stem p @ u ''.json'' \<notin> set (parts (truediv (Path (u ''tests/references'')) (stem p)))"
proof
  assume "stem p @ u ''.json'' \<in> set (parts (truediv (Path (u ''tests/references'')) (stem p)))"
  from output_dir_parts [OF this] show False
    by (auto simp: u_def append_eq_Cons_conv)
qed

section \<open>A run on an existing input\<close>

lemma grows_dirs: "grows A f g \<Longrightarrow> f k = Some Dir \<Longrightarrow> g k = Some Dir"
  by (rule grows_keeps)

lemma exists_parent_dir:
  assumes "exists cw f p" and "parts p \<noteq> []"
  shows "\<exists>d. walk f (if root p = [] then cw else []) (butlast (parts p)) = Inr d \<and> f d = Some Dir"
proof -
  from assms(1) obtain l where "resolve cw f p = Inr l"
    by (auto simp: exists_def split: sum.splits)
  with assms(2) have "walk f (if root p = [] then cw else []) (butlast (parts p) @ [last (parts p)]) = Inr l"
    by (simp add: resolve_def)
  from walk_last [OF this] show ?thesis by blast
qed

lemma walk_step:
  "walk f cur cs = Inr d \<Longrightarrow> f d = Some Dir \<Longrightarrow> c \<noteq> [dot, dot] \<Longrightarrow>
     walk f cur (cs @ [c]) = Inr (d @ [c])"
  by (subst walk_append) simp

lemma resolve_json:
  assumes "exists cw f p" and "name p \<noteq> []"
  shows "\<exists>d. resolve cw f (p\<lparr>parts := butlast (parts p) @ [stem p @ u ''.json'']\<rparr>)
             = Inr (d @ [stem p @ u ''.json''])"
proof -
  from assms(2) have pn: "parts p \<noteq> []" by (auto simp: name_def)
  from exists_parent_dir [OF assms(1) pn] obtain d where
    w: "walk f (if root p = [] then cw else []) (butlast (parts p)) = Inr d" and d: "f d = Some Dir"
    by blast
  have "walk f (if root p = [] then cw else []) (butlast (parts p) @ [stem p @ u ''.json''])
          = Inr (d @ [stem p @ u ''.json''])"
    by (rule walk_step [OF w d json_name_not_dotdot])
  then have r: "resolve cw f (p\<lparr>parts := butlast (parts p) @ [stem p @ u ''.json'']\<rparr>)
               = Inr (d @ [stem p @ u ''.json''])"
    unfolding resolve_def by simp
  show ?thesis by (rule exI [where x = d]) (rule r)
qed

lemma main_body_success:
  assumes len: "2 \<le> length argv"
    and ex: "exists (cwd w) (fs w) (Path (argv ! 1))"
    and nm: "name (Path (argv ! 1)) \<noteq> []"
    and mk: "mkdir (cwd w) (fs w) (truediv (Path (u ''tests/references'')) (stem (Path (argv ! 1))))
               = (Inr (), f1)"
    and nd: "\<not> is_dir (cwd w) (fs w)
               ((Path (argv ! 1))\<lparr>parts := butlast (parts (Path (argv ! 1)))
                                        @ [stem (Path (argv ! 1)) @ u ''.json'']\<rparr>)"
    and im: "deps (u ''ImageMagick'') = Some b"
  shows "\<exists>loc. resolve (cwd w) (fs w)
               ((Path (argv ! 1))\<lparr>parts := butlast (parts (Path (argv ! 1)))
                                        @ [stem (Path (argv ! 1)) @ u ''.json'']\<rparr>) = Inr loc
           \<and> resolve (cwd w) f1
               ((Path (argv ! 1))\<lparr>parts := butlast (parts (Path (argv ! 1)))
                                        @ [stem (Path (argv ! 1)) @ u ''.json'']\<rparr>) = Inr loc
           \<and> fs w loc \<noteq> Some Dir \<and> f1 loc = fs w loc
           \<and> fst (main_body e deps argv w) = Inr ()
           \<and> fs (snd (main_body e deps argv w))
               = f1(loc \<mapsto> File (dumps 2 0 (JDict (metadata e (Path (argv ! 1))))))"
proof -
  let ?p = "Path (argv ! 1)"
  let ?j = "?p\<lparr>parts := butlast (parts ?p) @ [stem ?p @ u ''.json'']\<rparr>"
  let ?out = "truediv (Path (u ''tests/references'')) (stem ?p)"
  let ?txt = "dumps 2 0 (JDict (metadata e ?p))"
  from resolve_json [OF ex nm] obtain d where r: "resolve (cwd w) (fs w) ?j = Inr (d @ [stem ?p @ u ''.json''])"
    by blast
  let ?loc = "d @ [stem ?p @ u ''.json'']"
  from nd r have ndir: "fs w ?loc \<noteq> Some Dir" by (simp add: is_dir_def)
  from mkdir_grows [of ?out "fs w" "cwd w"] mk have g: "grows (set (parts ?out)) (fs w) f1" by simp
  have same: "f1 ?loc = fs w ?loc"
  proof -
    from g have "f1 ?loc = fs w ?loc \<or> last ?loc \<in> set (parts ?out)"
      unfolding grows_def by blast
    with json_name_not_output_dir [of ?p] show ?thesis by simp
  qed
  have r1: "resolve (cwd w) f1 ?j = Inr ?loc"
    by (rule resolve_mono [OF r]) (rule grows_dirs [OF g])
  from ndir same have ow: "open_write (cwd w) f1 ?j ?txt = Inr (f1(?loc \<mapsto> File ?txt))"
    by (intro open_write_json [OF r1]) simp
  let ?w4 = "print (u ''Output directory: '' @ str_path ?out)
               (print (newline # u ''Processing: '' @ str_path ?p) (w\<lparr>fs := f1\<rparr>))"
  have gen: "generate_reference_data e ?p ?w4 =
      (Inr (), print (tick # u '' Generated metadata: '' @ str_path ?j) (?w4\<lparr>fs := f1(?loc \<mapsto> File ?txt)\<rparr>))"
    by (simp add: generate_reference_data_def with_suffix_json [OF nm] ow del: One_nat_def dumps.simps)
  have mb: "main_body e deps argv w =
      instructions deps ?p ?out (print (tick # u '' Generated metadata: '' @ str_path ?j) (?w4\<lparr>fs := f1(?loc \<mapsto> File ?txt)\<rparr>))"
    using len ex by (simp add: main_body_def Let_def mk gen del: One_nat_def dumps.simps)
  have "fst (main_body e deps argv w) = Inr ()"
    unfolding mb by (rule instructions_fst [of deps b, OF im])
  moreover have "fs (snd (main_body e deps argv w)) = f1(?loc \<mapsto> File ?txt)"
    unfolding mb by simp
  ultimately have concl: "resolve (cwd w) (fs w) ?j = Inr ?loc \<and> resolve (cwd w) f1 ?j = Inr ?loc
      \<and> fs w ?loc \<noteq> Some Dir \<and> f1 ?loc = fs w ?loc
      \<and> fst (main_body e deps argv w) = Inr ()
      \<and> fs (snd (main_body e deps argv w)) = f1(?loc \<mapsto> File ?txt)"
    using r r1 ndir same by (simp del: One_nat_def dumps.simps)
  show ?thesis by (rule exI [where x = ?loc]) (rule concl)
qed

lemma open_write_Inr:
  "open_write cw f p txt = Inr g \<Longrightarrow> \<exists>loc. resolve cw f p = Inr loc \<and> f loc \<noteq> Some Dir \<and> g = f(loc \<mapsto> File txt)"
  by (auto simp: open_write_def split: sum.splits if_splits)

lemma main_body_cwd: "cwd (snd (main_body e deps argv w)) = cwd w"
  by (auto simp: main_body_def Let_def usage_def split: prod.splits sum.splits
        dest!: generate_reference_data_frame)

text \<open>Whatever happens, \<open>main_body\<close> leaves the file system as \<open>mkdir\<close> left it, or with
  one file written on top.\<close>

lemma main_body_fs:
  "\<exists>f1. grows (set (parts (truediv (Path (u ''tests/references'')) (stem (Path (argv ! 1)))))) (fs w) f1
     \<and> (fs (snd (main_body e deps argv w)) = f1
        \<or> (\<exists>loc. fs (snd (main_body e deps argv w))
                   = f1(loc \<mapsto> File (dumps 2 0 (JDict (metadata e (Path (argv ! 1))))))))"
proof -
  let ?p = "Path (argv ! 1)"
  let ?out = "truediv (Path (u ''tests/references'')) (stem ?p)"
  let ?txt = "dumps 2 0 (JDict (metadata e ?p))"
  show ?thesis
  proof (cases "length argv < 2 \<or> \<not> exists (cwd w) (fs w) ?p")
    case True
    then have "fs (snd (main_body e deps argv w)) = fs w"
      by (auto simp: main_body_def Let_def)
    with grows_refl [of _ "fs w"] show ?thesis by blast
  next
    case False
    obtain r f1 where mk: "mkdir (cwd w) (fs w) ?out = (r, f1)" by (cases "mkdir (cwd w) (fs w) ?out")
    with mkdir_grows [of ?out "fs w" "cwd w"] have g: "grows (set (parts ?out)) (fs w) f1" by simp
    let ?w1 = "print (u ''Output directory: '' @ str_path ?out)
               (print (newline # u ''Processing: '' @ str_path ?p) (w\<lparr>fs := f1\<rparr>))"
    have "fs (snd (main_body e deps argv w)) = f1
        \<or> (\<exists>loc. fs (snd (main_body e deps argv w)) = f1(loc \<mapsto> File ?txt))"
    proof (cases r)
      case (Inl ex)
      with False mk show ?thesis by (simp add: main_body_def Let_def del: One_nat_def dumps.simps)
    next
      case (Inr x)
      obtain r2 w2 where gen: "generate_reference_data e ?p ?w1 = (r2, w2)"
        by (cases "generate_reference_data e ?p ?w1")
      show ?thesis
      proof (cases r2)
        case (Inl ex)
        with gen have "w2 = ?w1" by (auto dest: generate_reference_data_Inl)
        with False mk Inr gen Inl show ?thesis
          by (simp add: main_body_def Let_def del: One_nat_def dumps.simps)
      next
        case (Inr y)
        with gen obtain out g1 where ow: "open_write (cwd ?w1) (fs ?w1) out ?txt = Inr g1"
          and w2: "w2 = print (tick # u '' Generated metadata: '' @ str_path out) (?w1\<lparr>fs := g1\<rparr>)"
          by (auto dest!: generate_reference_data_Inr)
        from open_write_Inr [OF ow] obtain loc where "g1 = f1(loc \<mapsto> File ?txt)" by auto
        with False mk \<open>r = Inr x\<close> gen Inr w2
        have "fs (snd (main_body e deps argv w)) = f1(loc \<mapsto> File ?txt)"
          by (simp add: main_body_def Let_def del: One_nat_def dumps.simps)
        then show ?thesis by blast
      qed
    qed
    with g show ?thesis by blast
  qed
qed

lemma main_probed_deps:
  "\<exists>w2. fs w2 = fs w \<and> cwd w2 = cwd w
     \<and> main e argv w =
         main_body e [u ''ImageMagick'' \<mapsto> (proc e [u ''convert'', u ''--version''] = Exited 0),
                      u ''Ghostscript'' \<mapsto> (proc e [u ''gs'', u ''--version''] = Exited 0)] argv w2"
proof -
  let ?w1 = "print (replicate 40 61) (print (u ''PPTX Test Reference Generator'') w)"
  from check_dependencies_eq [of e ?w1] show ?thesis
    by (auto simp: main_def)
qed

lemma deps_ImageMagick:
  "[u ''ImageMagick'' \<mapsto> a, u ''Ghostscript'' \<mapsto> b] (u ''ImageMagick'') = Some a"
  by (simp add: u_def)

lemma instructions_stdout:
  assumes "deps (u ''ImageMagick'') = Some b"
  shows "stdout (snd (instructions deps p out w)) =
           stdout w @ [newline # u ''LibreOffice command (if available):'',
                       u ''soffice --headless --convert-to pdf --outdir '' @ str_path out @ u '' '' @ str_path p]
             @ (if b then [newline # u ''To convert existing PDFs to images:'',
                           u ''convert -density 300 <pdf_file> '' @ str_path out @ u ''/slide-%d.png'']
                else [])
             @ [newline # tick # u '' Reference generation setup complete'']"
  using assms by (simp add: instructions_def Let_def)

lemma main_body_Inr:
  assumes "2 \<le> length argv" and "exists (cwd w) (fs w) (Path (argv ! 1))"
    and "fst (main_body e deps argv w) = Inr ()"
  shows "\<exists>w5. main_body e deps argv w =
           instructions deps (Path (argv ! 1))
             (truediv (Path (u ''tests/references'')) (stem (Path (argv ! 1)))) w5"
  using assms
  by (auto simp: main_body_def Let_def simp del: One_nat_def split: prod.splits sum.splits)

text \<open>
  Claim C6.  On an existing input path \<open>main\<close> starts exactly two processes, the version
  queries of the probe, both in the file system it was started in: no conversion command
  is run.  The file system it leaves is the one it found, with new directories only at
  free locations named after a component of \<open>tests/references/<stem>\<close>, and at most
  one file written, the metadata.  When it returns normally it has printed the
  \<open>soffice\<close> command line, and the \<open>convert\<close> command line as well when ImageMagick
  answered its version query.
\<close>

theorem main_runs_no_conversion:
  assumes "2 \<le> length argv" and "exists (cwd w) (fs w) (Path (argv ! 1))"
  shows "spawned (snd (main e argv w)) =
           spawned w @ [([u ''convert'', u ''--version''], fs w), ([u ''gs'', u ''--version''], fs w)]
       \<and> (\<exists>f1. grows (set (parts (truediv (Path (u ''tests/references'')) (stem (Path (argv ! 1))))))
                  (fs w) f1
              \<and> (fs (snd (main e argv w)) = f1
                 \<or> (\<exists>loc. fs (snd (main e argv w))
                            = f1(loc \<mapsto> File (dumps 2 0 (JDict (metadata e (Path (argv ! 1)))))))))
       \<and> (fst (main e argv w) = Inr () \<longrightarrow>
            u ''soffice --headless --convert-to pdf --outdir ''
              @ str_path (truediv (Path (u ''tests/references'')) (stem (Path (argv ! 1))))
              @ u '' '' @ str_path (Path (argv ! 1)) \<in> set (stdout (snd (main e argv w)))
          \<and> (proc e [u ''convert'', u ''--version''] = Exited 0 \<longrightarrow>
                u ''convert -density 300 <pdf_file> ''
                  @ str_path (truediv (Path (u ''tests/references'')) (stem (Path (argv ! 1))))
                  @ u ''/slide-%d.png'' \<in> set (stdout (snd (main e argv w)))))"
proof -
  let ?deps = "[u ''ImageMagick'' \<mapsto> (proc e [u ''convert'', u ''--version''] = Exited 0),
               u ''Ghostscript'' \<mapsto> (proc e [u ''gs'', u ''--version''] = Exited 0)]"
  from main_probed_deps [of w e argv] obtain w2 where f: "fs w2 = fs w" and c: "cwd w2 = cwd w"
    and m: "main e argv w = main_body e ?deps argv w2" by blast
  have im: "?deps (u ''ImageMagick'') = Some (proc e [u ''convert'', u ''--version''] = Exited 0)"
    by (rule deps_ImageMagick)
  have frame: "\<exists>f1. grows (set (parts (truediv (Path (u ''tests/references'')) (stem (Path (argv ! 1))))))
                  (fs w) f1
              \<and> (fs (snd (main e argv w)) = f1
                 \<or> (\<exists>loc. fs (snd (main e argv w))
                            = f1(loc \<mapsto> File (dumps 2 0 (JDict (metadata e (Path (argv ! 1))))))))"
    using main_body_fs [of argv w2 e ?deps] unfolding m f .
  have prints: "u ''soffice --headless --convert-to pdf --outdir ''
              @ str_path (truediv (Path (u ''tests/references'')) (stem (Path (argv ! 1))))
              @ u '' '' @ str_path (Path (argv ! 1)) \<in> set (stdout (snd (main e argv w)))
          \<and> (proc e [u ''convert'', u ''--version''] = Exited 0 \<longrightarrow>
                u ''convert -density 300 <pdf_file> ''
                  @ str_path (truediv (Path (u ''tests/references'')) (stem (Path (argv ! 1))))
                  @ u ''/slide-%d.png'' \<in> set (stdout (snd (main e argv w))))"
    if ok: "fst (main e argv w) = Inr ()"
  proof -
    from assms f c have ex2: "exists (cwd w2) (fs w2) (Path (argv ! 1))" by simp
    from ok m have "fst (main_body e ?deps argv w2) = Inr ()" by simp
    from main_body_Inr [OF assms(1) ex2 this] obtain w5 where
      mb: "main_body e ?deps argv w2 = instructions ?deps (Path (argv ! 1))
             (truediv (Path (u ''tests/references'')) (stem (Path (argv ! 1)))) w5" by blast
    show ?thesis
      unfolding m mb instructions_stdout [of ?deps _ _ _ w5, OF im] by simp
  qed
  from main_spawned [of e argv w] frame prints show ?thesis by blast
qed

text \<open>The run on \<open>a.pptx\<close> in the example world: two version queries are started, the
  two command lines are only printed.\<close>

theorem main_runs_no_conversion_witness:
  "exists (cwd world0) (fs world0) (Path (u ''a.pptx''))
   \<and> fst (main env0 [u ''prog'', u ''a.pptx''] world0) = Inr ()
   \<and> proc env0 [u ''convert'', u ''--version''] = Exited 0
   \<and> spawned (snd (main env0 [u ''prog'', u ''a.pptx''] world0))
       = [([u ''convert'', u ''--version''], fs0), ([u ''gs'', u ''--version''], fs0)]
   \<and> u ''soffice --headless --convert-to pdf --outdir tests/references/a a.pptx''
       \<in> set (stdout (snd (main env0 [u ''prog'', u ''a.pptx''] world0)))
   \<and> u ''convert -density 300 <pdf_file> tests/references/a/slide-%d.png''
       \<in> set (stdout (snd (main env0 [u ''prog'', u ''a.pptx''] world0)))"
proof -
  let ?argv = "[u ''prog'', u ''a.pptx'']"
  have len: "2 \<le> length ?argv" by simp
  have h: "exists (cwd world0) (fs world0) (Path (?argv ! 1))"
    by (simp add: exists_def resolve_def world0_def fs0_def Path_def splitroot_def u_def slash_def dot_def)
  have ok: "fst (main env0 ?argv world0) = Inr ()"
    by (simp add: main_def main_body_def check_dependencies_def tools_def subprocess_run_def
        env0_def world0_def fs0_def print_def u_def Path_def splitroot_def slash_def dot_def
        exists_def resolve_def truediv_def stem_def name_def rfind_def mkdir.simps os_mkdir_def
        parent_def mkdir_leaf_def is_dir_def generate_reference_data_def with_suffix_def suffix_def
        open_write_def instructions_def Let_def del: dumps.simps)
  have im: "proc env0 [u ''convert'', u ''--version''] = Exited 0"
    by (simp add: env0_def)
  have s1: "str_path (truediv (Path (u ''tests/references'')) (stem (Path (u ''a.pptx''))))
              = u ''tests/references/a''"
    by (simp add: str_path_def truediv_def stem_def name_def rfind_def Path_def splitroot_def
          u_def slash_def dot_def)
  have s2: "str_path (Path (u ''a.pptx'')) = u ''a.pptx''"
    by (simp add: str_path_def Path_def splitroot_def u_def slash_def dot_def)
  have l1: "u ''soffice --headless --convert-to pdf --outdir '' @ u ''tests/references/a'' @ u '' '' @ u ''a.pptx''
        = u ''soffice --headless --convert-to pdf --outdir tests/references/a a.pptx''"
    by (simp add: u_def)
  have l2: "u ''convert -density 300 <pdf_file> '' @ u ''tests/references/a'' @ u ''/slide-%d.png''
        = u ''convert -density 300 <pdf_file> tests/references/a/slide-%d.png''"
    by (simp add: u_def)
  from main_runs_no_conversion [OF len h, of env0] ok im
  have "spawned (snd (main env0 ?argv world0))
       = spawned world0 @ [([u ''convert'', u ''--version''], fs world0), ([u ''gs'', u ''--version''], fs world0)]"
    and "u ''soffice --headless --convert-to pdf --outdir ''
              @ str_path (truediv (Path (u ''tests/references'')) (stem (Path (?argv ! 1))))
              @ u '' '' @ str_path (Path (?argv ! 1)) \<in> set (stdout (snd (main env0 ?argv world0)))"
    and "u ''convert -density 300 <pdf_file> ''
                  @ str_path (truediv (Path (u ''tests/references'')) (stem (Path (?argv ! 1))))
                  @ u ''/slide-%d.png'' \<in> set (stdout (snd (main env0 ?argv world0)))"
    by blast+
  then show ?thesis using h ok im s1 s2 l1 l2
    by (simp add: world0_def del: dumps.simps)
qed

lemma metadata_record:
  "map fst (metadata e p) = [u ''source'', u ''generated'', u ''method'', u ''dpi'', u ''slides'']"
  "map_of (metadata e p) (u ''source'') = Some (JStr (str_path p))"
  "map_of (metadata e p) (u ''generated'') = Some (JStr (now e))"
  "map_of (metadata e p) (u ''method'') = Some (JStr (u ''manual''))"
  "map_of (metadata e p) (u ''dpi'') = Some (JInt 300)"
  "map_of (metadata e p) (u ''slides'') = Some (JList [])"
  by (simp_all add: metadata_def u_def)

lemma main_success:
  assumes len: "2 \<le> length argv"
    and ex: "exists (cwd w) (fs w) (Path (argv ! 1))"
    and nm: "name (Path (argv ! 1)) \<noteq> []"
    and mk: "mkdir (cwd w) (fs w) (truediv (Path (u ''tests/references'')) (stem (Path (argv ! 1))))
               = (Inr (), f1)"
    and nd: "\<not> is_dir (cwd w) (fs w)
               ((Path (argv ! 1))\<lparr>parts := butlast (parts (Path (argv ! 1)))
                                        @ [stem (Path (argv ! 1)) @ u ''.json'']\<rparr>)"
  shows "\<exists>loc. resolve (cwd w) (fs w)
               ((Path (argv ! 1))\<lparr>parts := butlast (parts (Path (argv ! 1)))
                                        @ [stem (Path (argv ! 1)) @ u ''.json'']\<rparr>) = Inr loc
           \<and> resolve (cwd w) f1
               ((Path (argv ! 1))\<lparr>parts := butlast (parts (Path (argv ! 1)))
                                        @ [stem (Path (argv ! 1)) @ u ''.json'']\<rparr>) = Inr loc
           \<and> fs w loc \<noteq> Some Dir \<and> f1 loc = fs w loc
           \<and> fst (main e argv w) = Inr ()
           \<and> cwd (snd (main e argv w)) = cwd w
           \<and> fs (snd (main e argv w))
               = f1(loc \<mapsto> File (dumps 2 0 (JDict (metadata e (Path (argv ! 1))))))"
proof -
  let ?deps = "[u ''ImageMagick'' \<mapsto> (proc e [u ''convert'', u ''--version''] = Exited 0),
               u ''Ghostscript'' \<mapsto> (proc e [u ''gs'', u ''--version''] = Exited 0)]"
  from main_probed_deps [of w e argv] obtain w2 where f: "fs w2 = fs w" and c: "cwd w2 = cwd w"
    and m: "main e argv w = main_body e ?deps argv w2" by blast
  have im: "?deps (u ''ImageMagick'') = Some (proc e [u ''convert'', u ''--version''] = Exited 0)"
    by (rule deps_ImageMagick)
  from main_body_success [of argv w2 f1 ?deps _ e, OF len _ nm _ _ im] ex mk nd
  show ?thesis unfolding m f c main_body_cwd by simp
qed

text \<open>
  Claim C1, amended.  The claim as stated fails: an existing path without a final name,
  such as the working directory, makes \<open>with_suffix\<close> raise.  What holds: on an existing
  input path that has a name, where the output directory \<open>tests/references/<stem>\<close> can
  be made and the path with the suffix replaced by \<open>.json\<close> is not a directory, \<open>main\<close>
  returns normally and that path then names a file holding the serialized record, whose
  keys are exactly source, generated, method, dpi and slides, with method \<open>manual\<close>,
  dpi 300 and an empty list of slides.
\<close>

theorem metadata_file_produced:
  assumes "2 \<le> length argv"
    and "exists (cwd w) (fs w) (Path (argv ! 1))"
    and "name (Path (argv ! 1)) \<noteq> []"
    and "fst (mkdir (cwd w) (fs w) (truediv (Path (u ''tests/references'')) (stem (Path (argv ! 1)))))
           = Inr ()"
    and "\<not> is_dir (cwd w) (fs w)
               ((Path (argv ! 1))\<lparr>parts := butlast (parts (Path (argv ! 1)))
                                        @ [stem (Path (argv ! 1)) @ u ''.json'']\<rparr>)"
  shows "\<exists>loc.
           with_suffix (Path (argv ! 1)) (u ''.json'')
             = Inr ((Path (argv ! 1))\<lparr>parts := butlast (parts (Path (argv ! 1)))
                                              @ [stem (Path (argv ! 1)) @ u ''.json'']\<rparr>)
         \<and> fst (main e argv w) = Inr ()
         \<and> resolve (cwd w) (fs (snd (main e argv w)))
               ((Path (argv ! 1))\<lparr>parts := butlast (parts (Path (argv ! 1)))
                                        @ [stem (Path (argv ! 1)) @ u ''.json'']\<rparr>) = Inr loc
         \<and> fs (snd (main e argv w)) loc
             = Some (File (dumps 2 0 (JDict (metadata e (Path (argv ! 1))))))
         \<and> map fst (metadata e (Path (argv ! 1)))
             = [u ''source'', u ''generated'', u ''method'', u ''dpi'', u ''slides'']
         \<and> map_of (metadata e (Path (argv ! 1))) (u ''method'') = Some (JStr (u ''manual''))
         \<and> map_of (metadata e (Path (argv ! 1))) (u ''dpi'') = Some (JInt 300)
         \<and> map_of (metadata e (Path (argv ! 1))) (u ''slides'') = Some (JList [])"
proof -
  let ?p = "Path (argv ! 1)"
  let ?j = "?p\<lparr>parts := butlast (parts ?p) @ [stem ?p @ u ''.json'']\<rparr>"
  let ?txt = "dumps 2 0 (JDict (metadata e ?p))"
  obtain f1 where mk: "mkdir (cwd w) (fs w) (truediv (Path (u ''tests/references'')) (stem ?p)) = (Inr (), f1)"
    using assms(4) by (cases "mkdir (cwd w) (fs w) (truediv (Path (u ''tests/references'')) (stem ?p))") auto
  from main_success [OF assms(1,2,3) mk assms(5), of e] obtain loc where
    r1: "resolve (cwd w) f1 ?j = Inr loc" and nd: "fs w loc \<noteq> Some Dir" and same: "f1 loc = fs w loc"
    and ok: "fst (main e argv w) = Inr ()" and fs': "fs (snd (main e argv w)) = f1(loc \<mapsto> File ?txt)"
    by blast
  have "resolve (cwd w) (f1(loc \<mapsto> File ?txt)) ?j = Inr loc"
    using nd same by (intro resolve_mono [OF r1]) auto
  with fs' have r': "resolve (cwd w) (fs (snd (main e argv w))) ?j = Inr loc" by simp
  from fs' have c: "fs (snd (main e argv w)) loc = Some (File ?txt)" by simp
  have concl: "with_suffix ?p (u ''.json'') = Inr ?j
         \<and> fst (main e argv w) = Inr ()
         \<and> resolve (cwd w) (fs (snd (main e argv w))) ?j = Inr loc
         \<and> fs (snd (main e argv w)) loc = Some (File ?txt)
         \<and> map fst (metadata e ?p) = [u ''source'', u ''generated'', u ''method'', u ''dpi'', u ''slides'']
         \<and> map_of (metadata e ?p) (u ''method'') = Some (JStr (u ''manual''))
         \<and> map_of (metadata e ?p) (u ''dpi'') = Some (JInt 300)
         \<and> map_of (metadata e ?p) (u ''slides'') = Some (JList [])"
    using with_suffix_json [OF assms(3)] ok r' c metadata_record [of e ?p] by blast
  show ?thesis by (rule exI [where x = loc]) (rule concl)
qed

text \<open>The run on \<open>a.pptx\<close> in the example world writes \<open>/home/a.json\<close>.\<close>

theorem metadata_file_produced_witness:
  "exists (cwd world0) (fs world0) (Path (u ''a.pptx''))
   \<and> name (Path (u ''a.pptx'')) \<noteq> []
   \<and> fst (mkdir (cwd world0) (fs world0) (Path (u ''tests/references/a''))) = Inr ()
   \<and> \<not> is_dir (cwd world0) (fs world0) (Path (u ''a.json''))
   \<and> fst (main env0 [u ''prog'', u ''a.pptx''] world0) = Inr ()
   \<and> fs (snd (main env0 [u ''prog'', u ''a.pptx''] world0)) [u ''home'', u ''a.json'']
       = Some (File (dumps 2 0 (JDict (metadata env0 (Path (u ''a.pptx''))))))"
proof -
  let ?argv = "[u ''prog'', u ''a.pptx'']"
  have len: "2 \<le> length ?argv" by simp
  have p: "Path (?argv ! 1) = Path (u ''a.pptx'')" by simp
  have out: "truediv (Path (u ''tests/references'')) (stem (Path (u ''a.pptx''))) = Path (u ''tests/references/a'')"
    by (simp add: truediv_def stem_def name_def rfind_def Path_def splitroot_def u_def slash_def dot_def)
  have j: "(Path (u ''a.pptx''))\<lparr>parts := butlast (parts (Path (u ''a.pptx''))) @ [stem (Path (u ''a.pptx'')) @ u ''.json'']\<rparr>
       = Path (u ''a.json'')"
    by (simp add: stem_def name_def rfind_def Path_def splitroot_def u_def slash_def dot_def)
  have h1: "exists (cwd world0) (fs world0) (Path (u ''a.pptx''))"
    by (simp add: exists_def resolve_def world0_def fs0_def Path_def splitroot_def u_def slash_def dot_def)
  have h2: "name (Path (u ''a.pptx'')) \<noteq> []"
    by (simp add: name_def Path_def splitroot_def u_def slash_def dot_def)
  have h3: "fst (mkdir (cwd world0) (fs world0) (Path (u ''tests/references/a''))) = Inr ()"
    by (simp add: mkdir.simps os_mkdir_def mkdir_leaf_def is_dir_def parent_def resolve_def world0_def fs0_def
          Path_def splitroot_def u_def slash_def dot_def)
  have h4: "\<not> is_dir (cwd world0) (fs world0) (Path (u ''a.json''))"
    by (simp add: is_dir_def resolve_def world0_def fs0_def Path_def splitroot_def u_def slash_def dot_def)
  have r: "resolve (cwd world0) f (Path (u ''a.json'')) = Inr loc \<Longrightarrow> loc = [u ''home'', u ''a.json'']" for f loc
    by (auto simp add: resolve_def world0_def Path_def splitroot_def u_def slash_def dot_def
          split: option.splits node.splits)
  from metadata_file_produced [of ?argv world0 env0, unfolded p out j, OF len h1 h2 h3 h4]
  obtain loc where "fst (main env0 ?argv world0) = Inr ()"
    and "resolve (cwd world0) (fs (snd (main env0 ?argv world0))) (Path (u ''a.json'')) = Inr loc"
    and "fs (snd (main env0 ?argv world0)) loc = Some (File (dumps 2 0 (JDict (metadata env0 (Path (u ''a.pptx''))))))"
    by blast
  with r [of "fs (snd (main env0 ?argv world0))" loc] h1 h2 h3 h4 show ?thesis by simp
qed

text \<open>The working directory exists, and the run on it ends in \<open>ValueError\<close> with exit
  status one: no metadata file is produced.\<close>

theorem metadata_file_produced_counterexample:
  "exists (cwd world0) (fs world0) (Path (u ''.''))
   \<and> with_suffix (Path (u ''.'')) (u ''.json'') = Inl ValueError
   \<and> fst (main env0 [u ''prog'', u ''.''] world0) = Inl ValueError
   \<and> exit_status (main env0 [u ''prog'', u ''.''] world0) = 1"
  by (simp add: main_def main_body_def check_dependencies_def tools_def subprocess_run_def
        env0_def world0_def fs0_def print_def u_def Path_def splitroot_def slash_def dot_def
        exists_def resolve_def truediv_def stem_def name_def rfind_def mkdir.simps os_mkdir_def
        parent_def mkdir_leaf_def is_dir_def generate_reference_data_def with_suffix_def
        Let_def exit_status_def)

section \<open>The arguments\<close>






section \<open>The rasterizer invoker\<close>


lemma pdf_to_images_run:
  assumes "mkdir (cwd w) (fs w) (Path out) = (Inr (), f1)"
  shows "pdf_to_images e pdf out dpi w =
     (case proc e (convert_cmd pdf (Path out) dpi) of
        NotFound \<Rightarrow>
          (Inl FileNotFoundError,
           w\<lparr>fs := f1, spawned := spawned w @ [(convert_cmd pdf (Path out) dpi, f1)]\<rparr>)
      | Exited rc \<Rightarrow>
          (Inr (),
           print (if rc = 0 then tick # u '' Converted PDF to images in '' @ str_path (Path out)
                  else cross # u '' Failed to convert PDF: ''
                         @ exn_text e (CalledProcessError (convert_cmd pdf (Path out) dpi) rc))
             (w\<lparr>fs := f1, spawned := spawned w @ [(convert_cmd pdf (Path out) dpi, f1)]\<rparr>)))"
  using assms by (simp add: pdf_to_images_def subprocess_run_def Let_def split: proc_outcome.splits)

lemma convert_caught_iff: "convert_caught ex = (\<exists>c rc. ex = CalledProcessError c rc)"
  by (cases ex) simp_all

lemma tool_names_differ: "u ''ImageMagick'' \<noteq> u ''Ghostscript''"
  by (simp add: u_def)

text \<open>
  Claim C9.  When the output directory is made and the rasterizer binary is missing,
  \<open>pdf_to_images\<close> ends in \<open>FileNotFoundError\<close> and prints nothing: its \<open>except\<close> clause
  catches a \<open>CalledProcessError\<close> and nothing else.  The clause of the dependency prober
  catches \<open>FileNotFoundError\<close> too, so a missing \<open>convert\<close> there gives the flag false.
\<close>

theorem pdf_to_images_missing_binary:
  assumes "fst (mkdir (cwd w) (fs w) (Path out)) = Inr ()"
    and "proc e (convert_cmd pdf (Path out) dpi) = NotFound"
  shows "fst (pdf_to_images e pdf out dpi w) = Inl FileNotFoundError
       \<and> stdout (snd (pdf_to_images e pdf out dpi w)) = stdout w
       \<and> convert_caught ex = (\<exists>c rc. ex = CalledProcessError c rc)
       \<and> probe_caught FileNotFoundError
       \<and> (proc e [u ''convert'', u ''--version''] = NotFound \<longrightarrow>
            (\<exists>d. fst (check_dependencies e w) = Inr d \<and> d (u ''ImageMagick'') = Some False))"
proof -
  obtain f1 where mk: "mkdir (cwd w) (fs w) (Path out) = (Inr (), f1)"
    using assms(1) by (cases "mkdir (cwd w) (fs w) (Path out)") auto
  have "pdf_to_images e pdf out dpi w =
          (Inl FileNotFoundError,
           w\<lparr>fs := f1, spawned := spawned w @ [(convert_cmd pdf (Path out) dpi, f1)]\<rparr>)"
    by (simp add: pdf_to_images_run [OF mk] assms(2))
  moreover have "proc e [u ''convert'', u ''--version''] = NotFound \<longrightarrow>
            (\<exists>d. fst (check_dependencies e w) = Inr d \<and> d (u ''ImageMagick'') = Some False)"
    by (simp add: check_dependencies_result tool_names_differ)
  ultimately show ?thesis by (simp add: convert_caught_iff)
qed

text \<open>In the example world \<open>shots\<close> is a directory and \<open>convert\<close> answers only its
  version query.\<close>

theorem pdf_to_images_missing_binary_witness:
  "fst (mkdir (cwd world0) (fs world0) (Path (u ''shots''))) = Inr ()
   \<and> proc env0 (convert_cmd (u ''a.pdf'') (Path (u ''shots'')) 300) = NotFound
   \<and> fst (pdf_to_images env0 (u ''a.pdf'') (u ''shots'') 300 world0) = Inl FileNotFoundError
   \<and> stdout (snd (pdf_to_images env0 (u ''a.pdf'') (u ''shots'') 300 world0)) = []"
proof -
  have h1: "fst (mkdir (cwd world0) (fs world0) (Path (u ''shots''))) = Inr ()"
    by (simp add: mkdir.simps os_mkdir_def is_dir_def resolve_def world0_def fs0_def
          Path_def splitroot_def u_def slash_def dot_def)
  have h2: "proc env0 (convert_cmd (u ''a.pdf'') (Path (u ''shots'')) 300) = NotFound"
    by (simp add: env0_def convert_cmd_def u_def)
  from pdf_to_images_missing_binary [OF h1 h2] h1 h2 show ?thesis
    by (simp add: world0_def)
qed








section \<open>An input that is already a \<open>.json\<close> file\<close>

lemma json_path_same:
  assumes "name p = base @ u ''.json''" and "base \<noteq> []"
  shows "p\<lparr>parts := butlast (parts p) @ [stem p @ u ''.json'']\<rparr> = p"
proof -
  from assms have pn: "parts p \<noteq> []" by (auto simp: name_def)
  with assms suffix_json(2) [OF assms] have "stem p @ u ''.json'' = last (parts p)"
    by (simp add: name_def)
  with pn show ?thesis by simp
qed

text \<open>
  Claim C10, amended.  The claim as stated fails for the name \<open>.json\<close>, which has no
  suffix.  What holds: when the name of the input path ends in \<open>.json\<close> and is longer
  than that, replacing the suffix gives the input path back; and when that path names a
  regular file and the output directory can be made, \<open>main\<close> returns normally and the
  input file then holds the metadata.
\<close>

theorem json_input_overwritten:
  assumes "2 \<le> length argv"
    and "name (Path (argv ! 1)) = base @ u ''.json''" and "base \<noteq> []"
    and "resolve (cwd w) (fs w) (Path (argv ! 1)) = Inr loc" and "fs w loc = Some (File old)"
    and "fst (mkdir (cwd w) (fs w) (truediv (Path (u ''tests/references'')) (stem (Path (argv ! 1)))))
           = Inr ()"
  shows "with_suffix (Path (argv ! 1)) (u ''.json'') = Inr (Path (argv ! 1))
       \<and> fst (main e argv w) = Inr ()
       \<and> fs (snd (main e argv w)) loc
           = Some (File (dumps 2 0 (JDict (metadata e (Path (argv ! 1))))))"
proof -
  let ?p = "Path (argv ! 1)"
  have same: "?p\<lparr>parts := butlast (parts ?p) @ [stem ?p @ u ''.json'']\<rparr> = ?p"
    by (rule json_path_same [OF assms(2,3)])
  from assms(2,3) have nm: "name ?p \<noteq> []" by simp
  from assms(4,5) have ex: "exists (cwd w) (fs w) ?p" by (simp add: exists_def)
  from assms(4,5) have nd: "\<not> is_dir (cwd w) (fs w) ?p" by (simp add: is_dir_def)
  obtain f1 where mk: "mkdir (cwd w) (fs w) (truediv (Path (u ''tests/references'')) (stem ?p)) = (Inr (), f1)"
    using assms(6) by (cases "mkdir (cwd w) (fs w) (truediv (Path (u ''tests/references'')) (stem ?p))") auto
  from main_success [OF assms(1) ex nm mk, unfolded same, OF nd, of e] assms(4)
  have "fst (main e argv w) = Inr ()"
    and "fs (snd (main e argv w)) = f1(loc \<mapsto> File (dumps 2 0 (JDict (metadata e ?p))))"
    by auto
  with with_suffix_same [OF assms(2,3)] show ?thesis by simp
qed

text \<open>The run on \<open>deck.json\<close> in the example world replaces its content.\<close>

theorem json_input_overwritten_witness:
  "name (Path (u ''deck.json'')) = u ''deck'' @ u ''.json''
   \<and> resolve (cwd world0) (fs world0) (Path (u ''deck.json'')) = Inr [u ''home'', u ''deck.json'']
   \<and> fs world0 [u ''home'', u ''deck.json''] = Some (File (u ''slides''))
   \<and> fst (mkdir (cwd world0) (fs world0) (Path (u ''tests/references/deck''))) = Inr ()
   \<and> fst (main env0 [u ''prog'', u ''deck.json''] world0) = Inr ()
   \<and> fs (snd (main env0 [u ''prog'', u ''deck.json''] world0)) [u ''home'', u ''deck.json'']
       = Some (File (dumps 2 0 (JDict (metadata env0 (Path (u ''deck.json''))))))"
proof -
  let ?argv = "[u ''prog'', u ''deck.json'']"
  have len: "2 \<le> length ?argv" by simp
  have p: "Path (?argv ! 1) = Path (u ''deck.json'')" by simp
  have h1: "name (Path (u ''deck.json'')) = u ''deck'' @ u ''.json''"
    by (simp add: name_def Path_def splitroot_def u_def slash_def dot_def)
  have h2: "u ''deck'' \<noteq> []" by (simp add: u_def)
  have h3: "resolve (cwd world0) (fs world0) (Path (u ''deck.json'')) = Inr [u ''home'', u ''deck.json'']"
    by (simp add: resolve_def world0_def fs0_def Path_def splitroot_def u_def slash_def dot_def)
  have h4: "fs world0 [u ''home'', u ''deck.json''] = Some (File (u ''slides''))"
    by (simp add: world0_def fs0_def u_def)
  have out: "truediv (Path (u ''tests/references'')) (stem (Path (u ''deck.json''))) = Path (u ''tests/references/deck'')"
    by (simp add: truediv_def stem_def name_def rfind_def Path_def splitroot_def u_def slash_def dot_def)
  have h5: "fst (mkdir (cwd world0) (fs world0) (Path (u ''tests/references/deck''))) = Inr ()"
    by (simp add: mkdir.simps os_mkdir_def mkdir_leaf_def is_dir_def parent_def resolve_def world0_def fs0_def
          Path_def splitroot_def u_def slash_def dot_def)
  from json_input_overwritten [of ?argv "u ''deck''" world0 _ _ env0, unfolded p out, OF len h1 h2 h3 h4 h5]
    h1 h3 h4 h5
  show ?thesis by simp
qed

text \<open>The hidden file \<open>.json\<close>: the metadata goes to \<open>.json.json\<close> and the input keeps
  its content.\<close>

theorem json_input_overwritten_counterexample:
  "name (Path (u ''.json'')) = u ''.json''
   \<and> with_suffix (Path (u ''.json'')) (u ''.json'') = Inr (Path (u ''.json.json''))
   \<and> Path (u ''.json.json'') \<noteq> Path (u ''.json'')
   \<and> fst (main env0 [u ''prog'', u ''.json''] world0) = Inr ()
   \<and> fs (snd (main env0 [u ''prog'', u ''.json''] world0)) [u ''home'', u ''.json'']
       = Some (File (u ''hidden''))
   \<and> fs (snd (main env0 [u ''prog'', u ''.json''] world0)) [u ''home'', u ''.json.json'']
       = Some (File (dumps 2 0 (JDict (metadata env0 (Path (u ''.json''))))))"
  by (simp add: main_def main_body_def check_dependencies_def tools_def subprocess_run_def
        env0_def env1_def world0_def fs0_def print_def u_def Path_def splitroot_def slash_def dot_def
        exists_def resolve_def truediv_def stem_def name_def rfind_def mkdir.simps os_mkdir_def
        parent_def mkdir_leaf_def is_dir_def generate_reference_data_def with_suffix_def suffix_def
        open_write_def instructions_def Let_def usage_def
        del: dumps.simps)

section \<open>Running twice\<close>

lemma exists_mono:
  assumes "exists cw f p"
    and "\<And>k. f k = Some Dir \<Longrightarrow> g k = Some Dir"
    and "\<And>k. f k \<noteq> None \<Longrightarrow> g k \<noteq> None"
  shows "exists cw g p"
proof -
  from assms(1) obtain loc where r: "resolve cw f p = Inr loc" and n: "f loc \<noteq> None"
    by (auto simp: exists_def split: sum.splits)
  from resolve_mono [OF r assms(2)] have "resolve cw g p = Inr loc" by simp
  with assms(3) [OF n] show ?thesis by (simp add: exists_def)
qed

lemma with_suffix_json_Inr: "with_suffix p (u ''.json'') = Inr out \<Longrightarrow> name p \<noteq> []"
  by (auto simp: with_suffix_def split: if_splits)

lemma main_body_Inr_D:
  assumes len: "2 \<le> length argv" and ex: "exists (cwd w) (fs w) (Path (argv ! 1))"
    and ok: "fst (main_body e deps argv w) = Inr ()"
  shows "name (Path (argv ! 1)) \<noteq> []
       \<and> fst (mkdir (cwd w) (fs w) (truediv (Path (u ''tests/references'')) (stem (Path (argv ! 1)))))
           = Inr ()
       \<and> \<not> is_dir (cwd w) (fs w)
               ((Path (argv ! 1))\<lparr>parts := butlast (parts (Path (argv ! 1)))
                                        @ [stem (Path (argv ! 1)) @ u ''.json'']\<rparr>)"
proof -
  let ?p = "Path (argv ! 1)"
  let ?j = "?p\<lparr>parts := butlast (parts ?p) @ [stem ?p @ u ''.json'']\<rparr>"
  let ?out = "truediv (Path (u ''tests/references'')) (stem ?p)"
  let ?txt = "dumps 2 0 (JDict (metadata e ?p))"
  obtain r f1 where mk: "mkdir (cwd w) (fs w) ?out = (r, f1)" by (cases "mkdir (cwd w) (fs w) ?out")
  let ?w1 = "print (u ''Output directory: '' @ str_path ?out)
               (print (newline # u ''Processing: '' @ str_path ?p) (w\<lparr>fs := f1\<rparr>))"
  obtain r2 w2 where gen: "generate_reference_data e ?p ?w1 = (r2, w2)"
    by (cases "generate_reference_data e ?p ?w1")
  from len ex ok mk have r: "r = Inr ()"
    by (cases r) (simp_all add: main_body_def Let_def del: One_nat_def dumps.simps)
  with len ex ok mk gen have r2: "r2 = Inr ()"
    by (cases r2) (simp_all add: main_body_def Let_def del: One_nat_def dumps.simps)
  from generate_reference_data_Inr [OF gen [unfolded r2]] obtain out g1 where
    ws: "with_suffix ?p (u ''.json'') = Inr out" and ow: "open_write (cwd w) f1 out ?txt = Inr g1"
    by auto
  from ws have nm: "name ?p \<noteq> []" by (rule with_suffix_json_Inr)
  with ws have out: "out = ?j" by (simp add: with_suffix_json)
  from open_write_Inr [OF ow] out obtain l where rl: "resolve (cwd w) f1 ?j = Inr l" and nl: "f1 l \<noteq> Some Dir"
    by auto
  from mkdir_grows [of ?out "fs w" "cwd w"] mk have g: "grows (set (parts ?out)) (fs w) f1" by simp
  have "\<not> is_dir (cwd w) (fs w) ?j"
  proof
    assume "is_dir (cwd w) (fs w) ?j"
    then have "is_dir (cwd w) f1 ?j" by (rule is_dir_mono) (rule grows_dirs [OF g])
    with rl nl show False by (simp add: is_dir_def)
  qed
  with nm mk r show ?thesis by simp
qed

lemma main_Inr_D:
  assumes len: "2 \<le> length argv" and ex: "exists (cwd w) (fs w) (Path (argv ! 1))"
    and ok: "fst (main e argv w) = Inr ()"
  shows "name (Path (argv ! 1)) \<noteq> []
       \<and> fst (mkdir (cwd w) (fs w) (truediv (Path (u ''tests/references'')) (stem (Path (argv ! 1)))))
           = Inr ()
       \<and> \<not> is_dir (cwd w) (fs w)
               ((Path (argv ! 1))\<lparr>parts := butlast (parts (Path (argv ! 1)))
                                        @ [stem (Path (argv ! 1)) @ u ''.json'']\<rparr>)"
proof -
  from main_probed [of w e argv] obtain deps w2 where f: "fs w2 = fs w" and c: "cwd w2 = cwd w"
    and m: "main e argv w = main_body e deps argv w2" by blast
  from ex f c have ex2: "exists (cwd w2) (fs w2) (Path (argv ! 1))" by simp
  from ok m have ok2: "fst (main_body e deps argv w2) = Inr ()" by simp
  from main_body_Inr_D [OF len ex2 ok2] show ?thesis unfolding f c .
qed

text \<open>
  Claim C7.  When a run on an existing input has returned normally, and so has written
  the metadata file, a second run on the same arguments returns normally too, and the
  file then holds the record of the second run alone: nothing of the first is left and
  nothing is appended.  The whole file system after both runs is the one the second run
  alone would have left.
\<close>

theorem rerun_overwrites_metadata:
  assumes len: "2 \<le> length argv"
    and ex: "exists (cwd w) (fs w) (Path (argv ! 1))"
    and ok: "fst (main e1 argv w) = Inr ()"
  shows "\<exists>loc. fst (main e2 argv (snd (main e1 argv w))) = Inr ()
           \<and> fs (snd (main e1 argv w)) loc
               = Some (File (dumps 2 0 (JDict (metadata e1 (Path (argv ! 1))))))
           \<and> fs (snd (main e2 argv (snd (main e1 argv w)))) loc
               = Some (File (dumps 2 0 (JDict (metadata e2 (Path (argv ! 1))))))
           \<and> fs (snd (main e2 argv (snd (main e1 argv w)))) = fs (snd (main e2 argv w))"
proof -
  let ?p = "Path (argv ! 1)"
  let ?j = "?p\<lparr>parts := butlast (parts ?p) @ [stem ?p @ u ''.json'']\<rparr>"
  let ?out = "truediv (Path (u ''tests/references'')) (stem ?p)"
  let ?t1 = "dumps 2 0 (JDict (metadata e1 ?p))"
  let ?t2 = "dumps 2 0 (JDict (metadata e2 ?p))"
  let ?w' = "snd (main e1 argv w)"
  from main_Inr_D [OF len ex ok] have nm: "name ?p \<noteq> []"
    and mk0: "fst (mkdir (cwd w) (fs w) ?out) = Inr ()" and nd: "\<not> is_dir (cwd w) (fs w) ?j"
    by auto
  obtain f1 where mk: "mkdir (cwd w) (fs w) ?out = (Inr (), f1)"
    using mk0 by (cases "mkdir (cwd w) (fs w) ?out") auto
  from main_success [OF len ex nm mk nd, of e1] obtain loc where
    r1: "resolve (cwd w) f1 ?j = Inr loc" and ndl: "fs w loc \<noteq> Some Dir" and same: "f1 loc = fs w loc"
    and c': "cwd ?w' = cwd w" and fs': "fs ?w' = f1(loc \<mapsto> File ?t1)"
    by blast
  from main_success [OF len ex nm mk nd, of e2] r1 have
    alone: "fs (snd (main e2 argv w)) = f1(loc \<mapsto> File ?t2)"
    by auto
  let ?g = "f1(loc \<mapsto> File ?t1)"
  from mkdir_grows [of ?out "fs w" "cwd w"] mk have g: "grows (set (parts ?out)) (fs w) f1" by simp
  have dirs: "f1 k = Some Dir \<Longrightarrow> ?g k = Some Dir" for k
    using ndl same by auto
  have ex': "exists (cwd ?w') (fs ?w') ?p"
    unfolding c' fs'
  proof (rule exists_mono [OF ex])
    fix k assume "fs w k = Some Dir"
    then have "f1 k = Some Dir" by (rule grows_dirs [OF g])
    then show "?g k = Some Dir" by (rule dirs)
  next
    fix k assume "fs w k \<noteq> None"
    then obtain n where "fs w k = Some n" by auto
    then have "f1 k = Some n" by (rule grows_keeps [OF g])
    then show "?g k \<noteq> None" by simp
  qed
  have "is_dir (cwd w) ?g ?out"
    using mkdir_is_dir [OF mk] by (rule is_dir_mono) (rule dirs)
  then have mk': "mkdir (cwd ?w') (fs ?w') ?out = (Inr (), ?g)"
    unfolding c' fs' by (rule is_dir_mkdir)
  have rg: "resolve (cwd w) ?g ?j = Inr loc"
    using r1 by (rule resolve_mono) (rule dirs)
  then have nd': "\<not> is_dir (cwd ?w') (fs ?w') ?j"
    unfolding c' fs' by (simp add: is_dir_def)
  from main_success [OF len ex' nm mk' nd', of e2] rg
  have ok2: "fst (main e2 argv ?w') = Inr ()"
    and fs2: "fs (snd (main e2 argv ?w')) = ?g(loc \<mapsto> File ?t2)"
    unfolding c' fs' by auto
  have concl: "fst (main e2 argv ?w') = Inr ()
           \<and> fs ?w' loc = Some (File ?t1)
           \<and> fs (snd (main e2 argv ?w')) loc = Some (File ?t2)
           \<and> fs (snd (main e2 argv ?w')) = fs (snd (main e2 argv w))"
    using ok2 fs2 fs' alone by simp
  show ?thesis by (rule exI [where x = loc]) (rule concl)
qed

text \<open>Two runs on \<open>a.pptx\<close> in the example world, at different times and with
  different tools installed.\<close>

theorem rerun_overwrites_metadata_witness:
  "exists (cwd world0) (fs world0) (Path (u ''a.pptx''))
   \<and> fst (main env0 [u ''prog'', u ''a.pptx''] world0) = Inr ()
   \<and> fst (main env1 [u ''prog'', u ''a.pptx''] (snd (main env0 [u ''prog'', u ''a.pptx''] world0))) = Inr ()
   \<and> fs (snd (main env1 [u ''prog'', u ''a.pptx''] (snd (main env0 [u ''prog'', u ''a.pptx''] world0))))
        [u ''home'', u ''a.json'']
       = Some (File (dumps 2 0 (JDict (metadata env1 (Path (u ''a.pptx''))))))"
proof -
  let ?argv = "[u ''prog'', u ''a.pptx'']"
  have len: "2 \<le> length ?argv" by simp
  have h1: "exists (cwd world0) (fs world0) (Path (?argv ! 1))"
    by (simp add: exists_def resolve_def world0_def fs0_def Path_def splitroot_def u_def slash_def dot_def)
  have h2: "fst (main env0 ?argv world0) = Inr ()"
    by (simp add: main_def main_body_def check_dependencies_def tools_def subprocess_run_def
        env0_def env1_def world0_def fs0_def print_def u_def Path_def splitroot_def slash_def dot_def
        exists_def resolve_def truediv_def stem_def name_def rfind_def mkdir.simps os_mkdir_def
        parent_def mkdir_leaf_def is_dir_def generate_reference_data_def with_suffix_def suffix_def
        open_write_def instructions_def Let_def usage_def
          del: dumps.simps)
  have alone: "fs (snd (main env1 ?argv world0)) [u ''home'', u ''a.json'']
       = Some (File (dumps 2 0 (JDict (metadata env1 (Path (u ''a.pptx''))))))"
    by (simp add: main_def main_body_def check_dependencies_def tools_def subprocess_run_def
        env0_def env1_def world0_def fs0_def print_def u_def Path_def splitroot_def slash_def dot_def
        exists_def resolve_def truediv_def stem_def name_def rfind_def mkdir.simps os_mkdir_def
        parent_def mkdir_leaf_def is_dir_def generate_reference_data_def with_suffix_def suffix_def
        open_write_def instructions_def Let_def usage_def
          del: dumps.simps)
  from rerun_overwrites_metadata [OF len h1 h2, of env1] alone h1 h2 show ?thesis
    by auto
qed

end
